theory Spec2Isabelle
  imports Complex_Main "HOL-Library.Sublist" "HOL-Library.List_Lexorder" "HOL-Library.Char_ord"
begin

section \<open>Stereo render orchestration of 4DSplat\<close>

text \<open>
  The development embeds the frame ingestion and stereo rendering layer of the
  repository: \<^verbatim>\<open>render_ply_to_image.py\<close> (parameter resolution, stereo camera
  placement, renderer command line), \<^verbatim>\<open>ply_to_stereo.py\<close> (per-frame stereo job,
  directory listing, stability check, the two watch loops) and the batch fan-out of
  \<^verbatim>\<open>tools/run_spatial_pipeline.py\<close>.

  Conventions. Python \<^verbatim>\<open>float\<close> values are modelled as \<^typ>\<open>real\<close> (rounding is not
  modelled), Python \<^verbatim>\<open>int\<close> as \<^typ>\<open>int\<close>, \<^verbatim>\<open>None\<close>-able values as \<^typ>\<open>'a option\<close>,
  file names as ASCII \<^typ>\<open>string\<close>s. A raised exception is the \<open>Inl\<close> branch of a sum.
\<close>

subsection \<open>Exceptions\<close>

datatype eye = Left | Right

text \<open>
  \<^verbatim>\<open>RuntimeError (name, eye)\<close> stands for
  \<^verbatim>\<open>RuntimeError(f"brush-render failed for {ply_path.name} ({eye})")\<close>, and
  \<^verbatim>\<open>CalledProcessError cmd\<close> for the exception of \<^verbatim>\<open>subprocess.run(cmd, check=True)\<close>
  on a non-zero exit status.
\<close>

datatype py_error =
    IndexError
  | FileNotFoundError
  | RuntimeError string eye
  | CalledProcessError "string list"

subsection \<open>Stereo camera planner\<close>

text \<open>
  \<^verbatim>\<open>
  def stereo_camera_positions(cam_pos, ipd):
      half = ipd * 0.5
      left = [cam_pos[0] - half, cam_pos[1], cam_pos[2]]
      right = [cam_pos[0] + half, cam_pos[1], cam_pos[2]]
      return left, right
  \<close>
  Reading \<^verbatim>\<open>cam_pos[i]\<close> beyond the end of the list raises \<^verbatim>\<open>IndexError\<close>.
\<close>

definition stereo_camera_positions ::
  "real list \<Rightarrow> real \<Rightarrow> py_error + (real list \<times> real list)" where
  "stereo_camera_positions cam_pos ipd =
     (let half = ipd * 0.5 in
      if length cam_pos < 3 then Inl IndexError
      else Inr ([cam_pos ! 0 - half, cam_pos ! 1, cam_pos ! 2],
                [cam_pos ! 0 + half, cam_pos ! 1, cam_pos ! 2]))"

subsection \<open>Render parameter resolver\<close>

text \<open>
  The overrides are the attributes of the \<^verbatim>\<open>args\<close> object (\<^verbatim>\<open>RenderArgs\<close> in
  \<^verbatim>\<open>ply_to_stereo.py\<close>, the \<^verbatim>\<open>argparse\<close> namespace in \<^verbatim>\<open>render_ply_to_image.py\<close>);
  the result is the dictionary returned by \<^verbatim>\<open>resolve_render_params\<close>.
\<close>

record render_args =
  args_width :: "int option"
  args_height :: "int option"
  args_fov_x :: "real option"
  args_fov_y :: "real option"
  args_focal_x :: "real option"
  args_focal_y :: "real option"
  args_center_x :: "real option"
  args_center_y :: "real option"
  use_ply_camera :: bool

record render_params =
  width :: int
  height :: int
  fov_x :: "real option"
  fov_y :: "real option"
  focal_x :: "real option"
  focal_y :: "real option"
  center_x :: real
  center_y :: real

text \<open>
  \<^verbatim>\<open>RenderArgs()\<close> of \<^verbatim>\<open>ply_to_stereo.py\<close>: every override \<^verbatim>\<open>None\<close>, embedded camera on.
\<close>

definition RenderArgs :: render_args where
  "RenderArgs = \<lparr> args_width = None, args_height = None, args_fov_x = None,
     args_fov_y = None, args_focal_x = None, args_focal_y = None,
     args_center_x = None, args_center_y = None, use_ply_camera = True \<rparr>"

text \<open>
  The 3 by 3 intrinsic matrix produced by \<^verbatim>\<open>reshape(3, 3)\<close>, row by row, and the pair
  \<^verbatim>\<open>(intrinsics, image_size)\<close> returned by \<^verbatim>\<open>parse_ply_metadata\<close>. Reading the binary
  file is input/output: the parser is a parameter of the model, its result a value of
  this type.
\<close>

type_synonym row3 = "real \<times> real \<times> real"
type_synonym intrinsics = "row3 \<times> row3 \<times> row3"
type_synonym ply_metadata = "intrinsics option \<times> (int \<times> int) option"

fun row_at :: "row3 \<Rightarrow> nat \<Rightarrow> real" where
  "row_at (a, b, c) j = (if j = 0 then a else if j = 1 then b else c)"

fun mat_at :: "intrinsics \<Rightarrow> nat \<Rightarrow> nat \<Rightarrow> real" where
  "mat_at (r0, r1, r2) i j = row_at (if i = 0 then r0 else if i = 1 then r1 else r2) j"

text \<open>
  \<^verbatim>\<open>
  def resolve_render_params(ply_path, args):
      intrinsics = None
      image_size = None
      if args.use_ply_camera:
          intrinsics, image_size = parse_ply_metadata(ply_path)
      width = args.width if args.width is not None else (image_size[0] if image_size else 1920)
      height = args.height if args.height is not None else (image_size[1] if image_size else 1080)
      focal_x = args.focal_x
      focal_y = args.focal_y
      if intrinsics is not None:
          if focal_x is None:
              focal_x = float(intrinsics[0, 0])
          if focal_y is None:
              focal_y = float(intrinsics[1, 1])
      center_x = args.center_x
      center_y = args.center_y
      if intrinsics is not None:
          if center_x is None and width:
              center_x = float(intrinsics[0, 2]) / float(width)
          if center_y is None and height:
              center_y = float(intrinsics[1, 2]) / float(height)
      if center_x is None:
          center_x = 0.5
      if center_y is None:
          center_y = 0.5
      fov_x = args.fov_x
      fov_y = args.fov_y
      if fov_x is None and focal_x is None:
          fov_x = 60.0
      return {...}
  \<close>
  The model follows the assignments one by one: \<open>embedded_metadata\<close> is the first four
  lines (the pair \<^verbatim>\<open>intrinsics, image_size\<close> after the \<^verbatim>\<open>use_ply_camera\<close> test), and
  \<^verbatim>\<open>and width\<close> is Python truthiness of an integer, that is \<open>width \<noteq> 0\<close>.
\<close>

definition embedded_metadata ::
  "('p \<Rightarrow> ply_metadata) \<Rightarrow> 'p \<Rightarrow> render_args \<Rightarrow> ply_metadata" where
  "embedded_metadata parse_ply_metadata ply_path args =
     (if use_ply_camera args then parse_ply_metadata ply_path else (None, None))"

definition resolve_render_params ::
  "('p \<Rightarrow> ply_metadata) \<Rightarrow> 'p \<Rightarrow> render_args \<Rightarrow> render_params" where
  "resolve_render_params parse_ply_metadata ply_path args =
     (let (intrinsics, image_size) = embedded_metadata parse_ply_metadata ply_path args;
          w = (case args_width args of Some v \<Rightarrow> v
               | None \<Rightarrow> (case image_size of Some sz \<Rightarrow> fst sz | None \<Rightarrow> 1920));
          h = (case args_height args of Some v \<Rightarrow> v
               | None \<Rightarrow> (case image_size of Some sz \<Rightarrow> snd sz | None \<Rightarrow> 1080));
          fx0 = args_focal_x args;
          fy0 = args_focal_y args;
          fx = (case intrinsics of None \<Rightarrow> fx0
                | Some m \<Rightarrow> (if fx0 = None then Some (mat_at m 0 0) else fx0));
          fy = (case intrinsics of None \<Rightarrow> fy0
                | Some m \<Rightarrow> (if fy0 = None then Some (mat_at m 1 1) else fy0));
          cx0 = args_center_x args;
          cy0 = args_center_y args;
          cx1 = (case intrinsics of None \<Rightarrow> cx0
                 | Some m \<Rightarrow> (if cx0 = None \<and> w \<noteq> 0
                              then Some (mat_at m 0 2 / real_of_int w) else cx0));
          cy1 = (case intrinsics of None \<Rightarrow> cy0
                 | Some m \<Rightarrow> (if cy0 = None \<and> h \<noteq> 0
                              then Some (mat_at m 1 2 / real_of_int h) else cy0));
          cx = (case cx1 of None \<Rightarrow> 0.5 | Some v \<Rightarrow> v);
          cy = (case cy1 of None \<Rightarrow> 0.5 | Some v \<Rightarrow> v);
          fovx0 = args_fov_x args;
          fovy = args_fov_y args;
          fovx = (if fovx0 = None \<and> fx = None then Some 60 else fovx0)
      in \<lparr> width = w, height = h, fov_x = fovx, fov_y = fovy,
           focal_x = fx, focal_y = fy, center_x = cx, center_y = cy \<rparr>)"

subsection \<open>Decimal text of integers\<close>

text \<open>
  \<^verbatim>\<open>str(n)\<close> for an integer and the format \<^verbatim>\<open>{n:06d}\<close>: decimal digits, a leading
  minus sign for a negative number, and zeros between the sign and the digits up to a
  total width of six.
\<close>

definition digit_char :: "nat \<Rightarrow> char" where
  "digit_char d = ''0123456789'' ! (d mod 10)"

fun str_nat :: "nat \<Rightarrow> string" where
  "str_nat n = (if n < 10 then [digit_char n] else str_nat (n div 10) @ [digit_char (n mod 10)])"

declare str_nat.simps [simp del]

definition str_int :: "int \<Rightarrow> string" where
  "str_int i = (if i < 0 then CHR ''-'' # str_nat (nat (- i)) else str_nat (nat i))"

definition zero_pad :: "nat \<Rightarrow> string \<Rightarrow> string" where
  "zero_pad w s = replicate (w - length s) CHR ''0'' @ s"

definition format_06d :: "int \<Rightarrow> string" where
  "format_06d i =
     (if i < 0 then CHR ''-'' # zero_pad 5 (str_nat (nat (- i))) else zero_pad 6 (str_nat (nat i)))"

subsection \<open>Renderer command line\<close>

text \<open>
  \<^verbatim>\<open>build_brush_command\<close> appends options to the list \<^verbatim>\<open>cmd\<close> in a fixed order.
  \<^verbatim>\<open>str\<close> of a float is the shortest decimal text that reads back as the same float;
  it is the parameter \<open>str_float\<close> of the model. Paths arrive as their text.
  Positions, rotation and background are read by index, which raises
  \<^verbatim>\<open>IndexError\<close> on a list that is too short.
\<close>

definition opt_arg :: "string \<Rightarrow> ('a \<Rightarrow> string) \<Rightarrow> 'a option \<Rightarrow> string list" where
  "opt_arg flag to_str v = (case v of None \<Rightarrow> [] | Some x \<Rightarrow> [flag, to_str x])"

definition build_brush_command ::
  "(real \<Rightarrow> string) \<Rightarrow> string \<Rightarrow> string \<Rightarrow> string \<Rightarrow> int option \<Rightarrow> int option \<Rightarrow>
   real option \<Rightarrow> real option \<Rightarrow> real option \<Rightarrow> real option \<Rightarrow> real \<Rightarrow> real \<Rightarrow>
   real list \<Rightarrow> real list \<Rightarrow> real list \<Rightarrow> int option \<Rightarrow> string list \<Rightarrow>
   py_error + string list" where
  "build_brush_command str_float brush_bin ply_path output_path w h fovx fovy fx fy cx cy
       cam_pos cam_rot background subsample_points extra_args =
     (if length cam_pos < 3 \<or> length cam_rot < 4 \<or> length background < 3 then Inl IndexError
      else Inr (
        [brush_bin, ply_path, ''--output'', output_path]
        @ opt_arg ''--width'' str_int w
        @ opt_arg ''--height'' str_int h
        @ opt_arg ''--fov-x'' str_float fovx
        @ [''--center-x'', str_float cx, ''--center-y'', str_float cy]
        @ [''--cam-pos'', str_float (cam_pos ! 0), str_float (cam_pos ! 1), str_float (cam_pos ! 2),
           ''--cam-rot'', str_float (cam_rot ! 0), str_float (cam_rot ! 1), str_float (cam_rot ! 2),
             str_float (cam_rot ! 3),
           ''--background'', str_float (background ! 0), str_float (background ! 1),
             str_float (background ! 2)]
        @ opt_arg ''--fov-y'' str_float fovy
        @ opt_arg ''--focal-x'' str_float fx
        @ opt_arg ''--focal-y'' str_float fy
        @ opt_arg ''--subsample-points'' str_int subsample_points
        @ extra_args))"

subsection \<open>File names\<close>

text \<open>
  \<^verbatim>\<open>str.startswith\<close>, \<^verbatim>\<open>fnmatch\<close> for patterns made of literal characters and \<^verbatim>\<open>*\<close>
  (the only patterns of the source: \<^verbatim>\<open>*.ply\<close>, \<^verbatim>\<open>frame_*_left.png\<close>,
  \<^verbatim>\<open>frame_*_right.png\<close>), \<^verbatim>\<open>s.replace(old, "")\<close> for a non-empty \<^verbatim>\<open>old\<close> (every
  occurrence removed, scanning from the left), \<^verbatim>\<open>s.split("_", 1)[1]\<close> (the text after the
  first underscore; the source guards it by \<^verbatim>\<open>startswith("frame_")\<close>, so the underscore
  is there), and the \<^verbatim>\<open>stem\<close> of pathlib (the name up to its last dot, when that dot is
  neither the first nor the last character; Python 3.13 and before).
\<close>

definition startswith :: "string \<Rightarrow> string \<Rightarrow> bool" where
  "startswith s pre = prefix pre s"

fun glob_match :: "string \<Rightarrow> string \<Rightarrow> bool" where
  "glob_match [] s = (s = [])"
| "glob_match (c # pat) [] = (c = CHR ''*'' \<and> glob_match pat [])"
| "glob_match (c # pat) (x # s) =
     (if c = CHR ''*'' then glob_match pat (x # s) \<or> glob_match (c # pat) s
      else c = x \<and> glob_match pat s)"

function str_remove :: "string \<Rightarrow> string \<Rightarrow> string" where
  "str_remove old s =
     (if s = [] \<or> old = [] then s
      else if prefix old s then str_remove old (drop (length old) s)
      else hd s # str_remove old (tl s))"
  by pat_completeness auto
termination
  by (relation "measure (\<lambda>(old, s). length s)") auto

declare str_remove.simps [simp del]

definition after_first :: "char \<Rightarrow> string \<Rightarrow> string" where
  "after_first sep s = drop 1 (dropWhile (\<lambda>c. c \<noteq> sep) s)"

definition rfind :: "char \<Rightarrow> string \<Rightarrow> nat option" where
  "rfind c s =
     (if c \<in> set s then Some (length s - 1 - length (takeWhile (\<lambda>x. x \<noteq> c) (rev s))) else None)"

definition stem_of :: "string \<Rightarrow> string" where
  "stem_of nm =
     (case rfind CHR ''.'' nm of
        None \<Rightarrow> nm
      | Some i \<Rightarrow> if 0 < i \<and> i + 1 < length nm then take i nm else nm)"

subsection \<open>Reading an integer\<close>

text \<open>
  \<^verbatim>\<open>int(s)\<close> on ASCII text: white space (tab, line feed, vertical tab, form feed,
  carriage return, space) is stripped at both ends, one sign is allowed,
  then come decimal digits, with single underscores allowed between two digits.
  Anything else raises \<^verbatim>\<open>ValueError\<close>, here \<open>None\<close>. (Python also refuses more than
  4300 digits; a file name is shorter than that.)
\<close>

definition is_space :: "char \<Rightarrow> bool" where
  "is_space c = (c \<in> set [CHR 0x09, CHR 0x0A, CHR 0x0B, CHR 0x0C, CHR 0x0D, CHR 0x20])"

definition strip :: "string \<Rightarrow> string" where
  "strip s = rev (dropWhile is_space (rev (dropWhile is_space s)))"

definition is_digit :: "char \<Rightarrow> bool" where
  "is_digit c = (c \<in> set ''0123456789'')"

definition digit_val :: "char \<Rightarrow> nat" where
  "digit_val c = of_char c - 48"

fun parse_digits :: "string \<Rightarrow> nat \<Rightarrow> nat option" where
  "parse_digits [] acc = Some acc"
| "parse_digits (c # cs) acc =
     (if is_digit c then parse_digits cs (10 * acc + digit_val c)
      else if c = CHR ''_'' \<and> cs \<noteq> [] \<and> is_digit (hd cs) then parse_digits cs acc
      else None)"

definition parse_unsigned :: "string \<Rightarrow> nat option" where
  "parse_unsigned s = (if s \<noteq> [] \<and> is_digit (hd s) then parse_digits s 0 else None)"

definition py_int :: "string \<Rightarrow> int option" where
  "py_int s =
     (case strip s of
        [] \<Rightarrow> None
      | c # cs \<Rightarrow>
          if c = CHR ''-'' then map_option (\<lambda>n. - int n) (parse_unsigned cs)
          else if c = CHR ''+'' then map_option int (parse_unsigned cs)
          else map_option int (parse_unsigned (c # cs)))"

subsection \<open>Paths and frame indices\<close>

text \<open>
  A \<^verbatim>\<open>Path\<close> is the text of its parent directory and its final component;
  \<^verbatim>\<open>str(path)\<close> joins the two with a slash, and \<^verbatim>\<open>directory / name\<close> is the path
  named \<open>name\<close> whose parent is that directory.
\<close>

datatype path = Path (parent: string) (name: string)

definition str_path :: "path \<Rightarrow> string" where
  "str_path p = parent p @ ''/'' @ name p"

definition child :: "path \<Rightarrow> string \<Rightarrow> path" where
  "child dir nm = Path (str_path dir) nm"

definition stem :: "path \<Rightarrow> string" where
  "stem p = stem_of (name p)"

text \<open>
  \<^verbatim>\<open>
  def ply_index(path: Path) -> int:
      name = path.stem
      if name.startswith("frame_"):
          try:
              return int(name.split("_", 1)[1])
          except ValueError:
              return 0
      return 0
  \<close>
\<close>

definition ply_index :: "path \<Rightarrow> int" where
  "ply_index p =
     (let nm = stem p in
      if startswith nm ''frame_'' then
        (case py_int (after_first CHR ''_'' nm) of Some i \<Rightarrow> i | None \<Rightarrow> 0)
      else 0)"

text \<open>
  \<^verbatim>\<open>
  def frame_index_from_stem(stem: str) -> int | None:
      if stem.startswith("frame_"):
          try:
              return int(stem.split("_", 1)[1])
          except ValueError:
              return None
      return None
  \<close>
\<close>

definition frame_index_from_stem :: "string \<Rightarrow> int option" where
  "frame_index_from_stem s =
     (if startswith s ''frame_'' then py_int (after_first CHR ''_'' s) else None)"

subsection \<open>File system, program state and configuration\<close>

text \<open>
  The file system is the list of existing paths, in the order a directory listing
  returns them, and the byte size \<^verbatim>\<open>stat\<close> reports for each path. The mutable variables
  of \<^verbatim>\<open>main\<close> in \<^verbatim>\<open>ply_to_stereo.py\<close> are \<^verbatim>\<open>seen_sizes\<close> and \<^verbatim>\<open>processed\<close>. The
  \<open>trace\<close> records, in order, what the program does to the outside: a call of the
  parameter resolver (which reads the file), an execution of the renderer by
  \<^verbatim>\<open>subprocess.run(cmd)\<close> inside \<^verbatim>\<open>render_file\<close> (with the frame and the output path the
  command was built for), a deleted file, a \<^verbatim>\<open>time.sleep\<close>.
\<close>

record filesystem =
  present :: "path list"
  st_size :: "path \<Rightarrow> nat"

datatype event =
    Resolve path
  | Invoke path path "string list"
  | Unlink path
  | Sleep

record state =
  fs :: filesystem
  seen_sizes :: "path \<rightharpoonup> nat"
  processed :: "path set"
  trace :: "event list"

text \<open>
  What \<^verbatim>\<open>main\<close> fixes before the loops start: the command-line arguments, and the three
  things the program reads from outside, taken as parameters: the metadata parser, the
  exit status of the renderer for a command line, and \<^verbatim>\<open>str\<close> on floats.
  \<open>input_is_file\<close> is the answer of \<^verbatim>\<open>input_path.is_file()\<close>.
\<close>

record config =
  input_path :: path
  input_is_file :: bool
  output_dir :: path
  brush_bin :: string
  ipd :: real
  watch :: bool
  sequential :: bool
  keep_temp :: bool
  parse_ply_metadata :: "path \<Rightarrow> ply_metadata"
  run_brush :: "string list \<Rightarrow> int"
  str_float :: "real \<Rightarrow> string"

definition path_exists :: "state \<Rightarrow> path \<Rightarrow> bool" where
  "path_exists st p = (p \<in> set (present (fs st)))"

definition create_file :: "path \<Rightarrow> filesystem \<Rightarrow> filesystem" where
  "create_file p f = (if p \<in> set (present f) then f else f\<lparr>present := present f @ [p]\<rparr>)"

definition unlink :: "path \<Rightarrow> state \<Rightarrow> state" where
  "unlink p st =
     st\<lparr>fs := (fs st)\<lparr>present := filter (\<lambda>q. q \<noteq> p) (present (fs st))\<rparr>,
        trace := trace st @ [Unlink p]\<rparr>"

definition glob :: "state \<Rightarrow> path \<Rightarrow> string \<Rightarrow> path list" where
  "glob st dir pat =
     filter (\<lambda>p. parent p = str_path dir \<and> glob_match pat (name p)) (present (fs st))"

definition DEFAULT_CAM_POS :: "real list" where "DEFAULT_CAM_POS = [0, 0, 0]"
definition DEFAULT_CAM_ROT :: "real list" where "DEFAULT_CAM_ROT = [0, 0, 0, 1]"
definition DEFAULT_BG :: "real list" where "DEFAULT_BG = [0, 0, 0]"

subsection \<open>Renderer invoker\<close>

text \<open>
  \<^verbatim>\<open>
  def render_file(ply_path, output_path, brush_bin, width, ..., extra_args, dry_run):
      output_path.parent.mkdir(parents=True, exist_ok=True)
      cmd = build_brush_command(brush_bin, ply_path, output_path, width, ...)
      print(f"Running: {' '.join(cmd)}")
      if dry_run:
          return 0
      result = subprocess.run(cmd)
      if result.returncode != 0:
          print(f"Error: brush exited with code {result.returncode}")
          return result.returncode
      return 0
  \<close>
  The renderer is an external process: its exit status is \<open>run cmd\<close>, and its one
  modelled effect is that the output image exists after exit status 0.
\<close>

definition render_file ::
  "(real \<Rightarrow> string) \<Rightarrow> (string list \<Rightarrow> int) \<Rightarrow> path \<Rightarrow> path \<Rightarrow> string \<Rightarrow>
   int option \<Rightarrow> int option \<Rightarrow> real option \<Rightarrow> real option \<Rightarrow> real option \<Rightarrow> real option \<Rightarrow>
   real \<Rightarrow> real \<Rightarrow> real list \<Rightarrow> real list \<Rightarrow> real list \<Rightarrow> int option \<Rightarrow> string list \<Rightarrow>
   bool \<Rightarrow> state \<Rightarrow> (py_error + int) \<times> state" where
  "render_file to_str run ply_path output_path bin w h fovx fovy fx fy cx cy
       cam_pos cam_rot background subsample_points extra_args dry_run st =
     (case build_brush_command to_str bin (str_path ply_path) (str_path output_path)
             w h fovx fovy fx fy cx cy cam_pos cam_rot background subsample_points extra_args of
        Inl e \<Rightarrow> (Inl e, st)
      | Inr cmd \<Rightarrow>
          if dry_run then (Inr 0, st)
          else
            (let returncode = run cmd;
                 st' = st\<lparr>fs := (if returncode = 0 then create_file output_path (fs st) else fs st),
                          trace := trace st @ [Invoke ply_path output_path cmd]\<rparr>
             in (Inr returncode, st')))"

subsection \<open>Per-frame stereo job\<close>

text \<open>
  The two output paths \<^verbatim>\<open>output_dir / f"{ply_path.stem}_left.png"\<close> and
  \<^verbatim>\<open>output_dir / f"{ply_path.stem}_right.png"\<close>, which \<^verbatim>\<open>render_stereo_from_ply\<close> and
  \<^verbatim>\<open>should_process\<close> both compute.
\<close>

definition left_path :: "config \<Rightarrow> path \<Rightarrow> path" where
  "left_path cfg ply_path = child (output_dir cfg) (stem ply_path @ ''_left.png'')"

definition right_path :: "config \<Rightarrow> path \<Rightarrow> path" where
  "right_path cfg ply_path = child (output_dir cfg) (stem ply_path @ ''_right.png'')"

text \<open>
  \<^verbatim>\<open>
  def render_stereo_from_ply(ply_path, output_dir, brush_bin, ipd):
      args = RenderArgs()
      params = resolve_render_params(ply_path, args)
      left_pos, right_pos = stereo_camera_positions(DEFAULT_CAM_POS, ipd)
      left_path = output_dir / f"{ply_path.stem}_left.png"
      right_path = output_dir / f"{ply_path.stem}_right.png"
      code = render_file(ply_path, left_path, brush_bin, params["width"], ...,
                         left_pos, DEFAULT_CAM_ROT, DEFAULT_BG, None, [], False)
      if code != 0:
          raise RuntimeError(f"brush-render failed for {ply_path.name} (left)")
      code = render_file(ply_path, right_path, ..., right_pos, ...)
      if code != 0:
          raise RuntimeError(f"brush-render failed for {ply_path.name} (right)")
  \<close>
\<close>

definition render_eye ::
  "config \<Rightarrow> path \<Rightarrow> path \<Rightarrow> render_params \<Rightarrow> real list \<Rightarrow> state \<Rightarrow> (py_error + int) \<times> state" where
  "render_eye cfg ply_path out params pos st =
     render_file (str_float cfg) (run_brush cfg) ply_path out (brush_bin cfg)
       (Some (width params)) (Some (height params)) (fov_x params) (fov_y params)
       (focal_x params) (focal_y params) (center_x params) (center_y params)
       pos DEFAULT_CAM_ROT DEFAULT_BG None [] False st"

definition render_stereo_from_ply :: "config \<Rightarrow> path \<Rightarrow> state \<Rightarrow> (py_error + unit) \<times> state" where
  "render_stereo_from_ply cfg ply_path st =
     (let args = RenderArgs;
          params = resolve_render_params (parse_ply_metadata cfg) ply_path args;
          st0 = st\<lparr>trace := trace st @ [Resolve ply_path]\<rparr>
      in case stereo_camera_positions DEFAULT_CAM_POS (ipd cfg) of
           Inl e \<Rightarrow> (Inl e, st0)
         | Inr (left_pos, right_pos) \<Rightarrow>
             (case render_eye cfg ply_path (left_path cfg ply_path) params left_pos st0 of
                (Inl e, st1) \<Rightarrow> (Inl e, st1)
              | (Inr code, st1) \<Rightarrow>
                  if code \<noteq> 0 then (Inl (RuntimeError (name ply_path) Left), st1)
                  else
                    (case render_eye cfg ply_path (right_path cfg ply_path) params right_pos st1 of
                       (Inl e, st2) \<Rightarrow> (Inl e, st2)
                     | (Inr code2, st2) \<Rightarrow>
                         if code2 \<noteq> 0 then (Inl (RuntimeError (name ply_path) Right), st2)
                         else (Inr (), st2))))"

subsection \<open>Directory listing, idempotency and stability\<close>

text \<open>
  \<^verbatim>\<open>
  def list_ply_files(input_path: Path) -> list[Path]:
      if input_path.is_file():
          return [input_path]
      return sorted(input_path.glob("*.ply"), key=ply_index)
  \<close>
  \<^verbatim>\<open>sorted\<close> is stable, as is \<open>sort_key\<close>; the listing order of \<^verbatim>\<open>glob\<close> is the order of
  the file system.
\<close>

definition list_ply_files :: "config \<Rightarrow> state \<Rightarrow> path list" where
  "list_ply_files cfg st =
     (if input_is_file cfg then [input_path cfg]
      else sort_key ply_index (glob st (input_path cfg) ''*.ply''))"

text \<open>
  \<^verbatim>\<open>
  def should_process(ply_path: Path) -> bool:
      left_path = output_dir / f"{ply_path.stem}_left.png"
      right_path = output_dir / f"{ply_path.stem}_right.png"
      if left_path.exists() and right_path.exists():
          return False
      return True

  def is_stable(ply_path: Path) -> bool:
      size = ply_path.stat().st_size
      last_size = seen_sizes.get(ply_path)
      seen_sizes[ply_path] = size
      return last_size is not None and last_size == size and size > 0
  \<close>
\<close>

definition should_process :: "config \<Rightarrow> path \<Rightarrow> state \<Rightarrow> bool" where
  "should_process cfg ply_path st =
     (if path_exists st (left_path cfg ply_path) \<and> path_exists st (right_path cfg ply_path)
      then False else True)"

definition is_stable :: "path \<Rightarrow> state \<Rightarrow> (py_error + bool) \<times> state" where
  "is_stable ply_path st =
     (if \<not> path_exists st ply_path then (Inl FileNotFoundError, st)
      else
        (let size = st_size (fs st) ply_path;
             last_size = seen_sizes st ply_path;
             st' = st\<lparr>seen_sizes := (seen_sizes st)(ply_path \<mapsto> size)\<rparr>
         in (Inr (last_size \<noteq> None \<and> last_size = Some size \<and> size > 0), st')))"

subsection \<open>One pass over the input directory\<close>

text \<open>
  \<^verbatim>\<open>
  def process_once() -> bool:
      ply_files = list_ply_files(input_path)
      if not ply_files:
          return False
      rendered_any = False
      for ply_path in ply_files:
          if not should_process(ply_path):
              continue
          if args.watch and not is_stable(ply_path):
              continue
          logging.info("Rendering %s", ply_path.name)
          render_stereo_from_ply(ply_path, output_dir, brush_bin, args.ipd)
          if not keep_temp:
              ply_path.unlink(missing_ok=True)
          processed.add(ply_path)
          rendered_any = True
      return rendered_any
  \<close>
  \<open>process_frames\<close> is the \<^verbatim>\<open>for\<close> loop; an exception leaves it with the state reached.
\<close>

fun process_frames :: "config \<Rightarrow> path list \<Rightarrow> bool \<Rightarrow> state \<Rightarrow> (py_error + bool) \<times> state" where
  "process_frames cfg [] rendered_any st = (Inr rendered_any, st)"
| "process_frames cfg (ply_path # rest) rendered_any st =
     (if \<not> should_process cfg ply_path st then process_frames cfg rest rendered_any st
      else
        (case (if watch cfg then is_stable ply_path st else (Inr True, st)) of
           (Inl e, st1) \<Rightarrow> (Inl e, st1)
         | (Inr ok, st1) \<Rightarrow>
             if \<not> ok then process_frames cfg rest rendered_any st1
             else
               (case render_stereo_from_ply cfg ply_path st1 of
                  (Inl e, st2) \<Rightarrow> (Inl e, st2)
                | (Inr u, st2) \<Rightarrow>
                    (let st3 = (if \<not> keep_temp cfg then unlink ply_path st2 else st2);
                         st4 = st3\<lparr>processed := insert ply_path (processed st3)\<rparr>
                     in process_frames cfg rest True st4))))"

definition process_once :: "config \<Rightarrow> state \<Rightarrow> (py_error + bool) \<times> state" where
  "process_once cfg st =
     (let ply_files = list_ply_files cfg st in
      if ply_files = [] then (Inr False, st)
      else process_frames cfg ply_files False st)"

subsection \<open>The watch loop\<close>

text \<open>
  \<^verbatim>\<open>
  def next_expected_index() -> int:
      existing = []
      for path in output_dir.glob("frame_*_left.png"):
          idx = frame_index_from_stem(path.stem.replace("_left", ""))
          if idx is not None:
              existing.append(idx)
      for path in output_dir.glob("frame_*_right.png"):
          idx = frame_index_from_stem(path.stem.replace("_right", ""))
          if idx is not None:
              existing.append(idx)
      if not existing:
          return 0
      return max(existing) + 1
  \<close>
\<close>

definition collect_indices :: "string \<Rightarrow> path list \<Rightarrow> int list" where
  "collect_indices eye_suffix paths =
     concat (map (\<lambda>p. case frame_index_from_stem (str_remove eye_suffix (stem p)) of
                         None \<Rightarrow> [] | Some idx \<Rightarrow> [idx]) paths)"

definition next_expected_index :: "config \<Rightarrow> state \<Rightarrow> int" where
  "next_expected_index cfg st =
     (let existing = collect_indices ''_left'' (glob st (output_dir cfg) ''frame_*_left.png'')
                   @ collect_indices ''_right'' (glob st (output_dir cfg) ''frame_*_right.png'')
      in if existing = [] then 0 else Max (set existing) + 1)"

text \<open>
  \<^verbatim>\<open>
  expected_index = next_expected_index() if args.sequential else None
  while True:
      if args.sequential:
          expected_name = f"frame_{expected_index:06d}.ply"
          expected_path = input_path / expected_name
          if expected_path.exists():
              if should_process(expected_path) and is_stable(expected_path):
                  logging.info("Rendering %s", expected_path.name)
                  render_stereo_from_ply(expected_path, output_dir, brush_bin, args.ipd)
                  if not keep_temp:
                      expected_path.unlink(missing_ok=True)
              expected_index += 1
              continue
          time.sleep(args.poll_interval)
          continue
      processed_any = process_once()
      if not processed_any:
          time.sleep(args.poll_interval)
  \<close>
  \<open>watch_iteration\<close> is one turn of the \<^verbatim>\<open>while\<close> loop and returns the
  next value of \<^verbatim>\<open>expected_index\<close>. That variable is an integer in the sequential mode
  and \<^verbatim>\<open>None\<close> otherwise, where it is never read: the model carries an integer, 0 when
  the mode is not sequential.
\<close>

definition expected_path :: "config \<Rightarrow> int \<Rightarrow> path" where
  "expected_path cfg expected_index =
     child (input_path cfg) (''frame_'' @ format_06d expected_index @ ''.ply'')"

definition sleep :: "state \<Rightarrow> state" where
  "sleep st = st\<lparr>trace := trace st @ [Sleep]\<rparr>"

definition watch_iteration :: "config \<Rightarrow> int \<Rightarrow> state \<Rightarrow> (py_error + int) \<times> state" where
  "watch_iteration cfg expected_index st =
     (if sequential cfg then
        (if path_exists st (expected_path cfg expected_index) then
           (if should_process cfg (expected_path cfg expected_index) st then
              (case is_stable (expected_path cfg expected_index) st of
                 (Inl e, st1) \<Rightarrow> (Inl e, st1)
               | (Inr ok, st1) \<Rightarrow>
                   if ok then
                     (case render_stereo_from_ply cfg (expected_path cfg expected_index) st1 of
                        (Inl e, st2) \<Rightarrow> (Inl e, st2)
                      | (Inr u, st2) \<Rightarrow>
                          (Inr (expected_index + 1),
                           if \<not> keep_temp cfg then unlink (expected_path cfg expected_index) st2
                           else st2))
                   else (Inr (expected_index + 1), st1))
            else (Inr (expected_index + 1), st))
         else (Inr expected_index, sleep st))
      else
        (case process_once cfg st of
           (Inl e, st1) \<Rightarrow> (Inl e, st1)
         | (Inr processed_any, st1) \<Rightarrow>
             (Inr expected_index, if \<not> processed_any then sleep st1 else st1)))"

text \<open>
  The loop has no exit: it ends only by an exception. \<open>watch_loop\<close> runs its first \<open>n\<close>
  turns. Other processes (the producer of the frames) may change the file system at any
  time; \<open>world t\<close> is what they have done to it when turn \<open>t\<close> begins. The result is the
  exception that ended the loop, if any, the value of \<^verbatim>\<open>expected_index\<close> and the state.
\<close>

fun watch_loop ::
  "config \<Rightarrow> (nat \<Rightarrow> filesystem \<Rightarrow> filesystem) \<Rightarrow> nat \<Rightarrow> nat \<Rightarrow> int \<Rightarrow> state \<Rightarrow>
   py_error option \<times> int \<times> state" where
  "watch_loop cfg world 0 t expected_index st = (None, expected_index, st)"
| "watch_loop cfg world (Suc n) t expected_index st =
     (case watch_iteration cfg expected_index (st\<lparr>fs := world t (fs st)\<rparr>) of
        (Inl e, st') \<Rightarrow> (Some e, expected_index, st')
      | (Inr expected_index', st') \<Rightarrow> watch_loop cfg world n (Suc t) expected_index' st')"

text \<open>
  \<^verbatim>\<open>main\<close> with \<^verbatim>\<open>--watch\<close>, from the creation of \<^verbatim>\<open>seen_sizes\<close> and \<^verbatim>\<open>processed\<close> on
  (the checks before it have passed), for \<open>n\<close> turns of the loop.
\<close>

definition initial_state :: "filesystem \<Rightarrow> state" where
  "initial_state f = \<lparr> fs = f, seen_sizes = Map.empty, processed = {}, trace = [] \<rparr>"

definition main_watch ::
  "config \<Rightarrow> (nat \<Rightarrow> filesystem \<Rightarrow> filesystem) \<Rightarrow> nat \<Rightarrow> filesystem \<Rightarrow>
   py_error option \<times> int \<times> state" where
  "main_watch cfg world n f =
     (let st = initial_state f;
          expected_index = (if sequential cfg then next_expected_index cfg st else 0)
      in watch_loop cfg world n 0 expected_index st)"

subsection \<open>Batch fan-out of the pipeline\<close>

text \<open>
  From \<^verbatim>\<open>tools/run_spatial_pipeline.py\<close>:
  \<^verbatim>\<open>
  def render_with_ply_to_stereo(ply_input: Path, output_dir: Path) -> None:
      subprocess.run(
          [sys.executable, str(ROOT_DIR / "ply_to_stereo.py"),
           "--input", str(ply_input), "--output", str(output_dir)],
          check=True,
      )
  \<close>
  \<^verbatim>\<open>check=True\<close> raises \<^verbatim>\<open>CalledProcessError\<close> on a non-zero exit status. The child
  process is \<^verbatim>\<open>ply_to_stereo.py\<close> on one file; its exit status is \<open>run cmd\<close>, a parameter
  of the model (it is non-zero when the per-frame job raises).
\<close>

definition ROOT_DIR :: path where
  "ROOT_DIR = Path ''/Users/alexanderturin/projects'' ''4DSplat''"

definition ply_to_stereo_command :: "string \<Rightarrow> path \<Rightarrow> path \<Rightarrow> string list" where
  "ply_to_stereo_command sys_executable ply_input out =
     [sys_executable, str_path (child ROOT_DIR ''ply_to_stereo.py''),
      ''--input'', str_path ply_input, ''--output'', str_path out]"

definition render_with_ply_to_stereo ::
  "(string list \<Rightarrow> int) \<Rightarrow> string \<Rightarrow> path \<Rightarrow> path \<Rightarrow> py_error + unit" where
  "render_with_ply_to_stereo run sys_executable ply_input out =
     (let cmd = ply_to_stereo_command sys_executable ply_input out in
      if run cmd \<noteq> 0 then Inl (CalledProcessError cmd) else Inr ())"

text \<open>
  \<^verbatim>\<open>
  with ThreadPoolExecutor(max_workers=RENDER_WORKERS) as executor:
      futures = {
          executor.submit(render_with_ply_to_stereo, ply_path, stereo_dir): ply_path
          for ply_path in ply_files
      }
      for future in futures:
          future.result()
  \<close>
  Every submitted job runs to its end: the pool cancels nothing, and leaving the
  \<^verbatim>\<open>with\<close> block waits for all of them, also when an exception passes through it. A
  future holds what its job returned or raised. The order in which the workers run the
  jobs is not modelled: each job is its own child process on its own frame, and its
  outcome is a function of its command line. \<open>submit_all\<close> is the dictionary of
  futures in insertion order, each with its frame and its outcome; \<open>wait_results\<close> is
  the \<^verbatim>\<open>for\<close> loop, where \<^verbatim>\<open>future.result()\<close> raises again what the job raised.
\<close>

definition submit_all ::
  "(string list \<Rightarrow> int) \<Rightarrow> string \<Rightarrow> path \<Rightarrow> path list \<Rightarrow> (path \<times> (py_error + unit)) list" where
  "submit_all run sys_executable stereo_dir ply_files =
     map (\<lambda>ply_path. (ply_path, render_with_ply_to_stereo run sys_executable ply_path stereo_dir))
       ply_files"

fun wait_results :: "(path \<times> (py_error + unit)) list \<Rightarrow> py_error + unit" where
  "wait_results [] = Inr ()"
| "wait_results ((ply_path, Inl e) # futures) = Inl e"
| "wait_results ((ply_path, Inr u) # futures) = wait_results futures"

definition render_parallel ::
  "(string list \<Rightarrow> int) \<Rightarrow> string \<Rightarrow> path \<Rightarrow> path list \<Rightarrow> py_error + unit" where
  "render_parallel run sys_executable stereo_dir ply_files =
     wait_results (submit_all run sys_executable stereo_dir ply_files)"

subsection \<open>Observations and example inputs used in the statements\<close>

text \<open>
  The command line \<^verbatim>\<open>render_stereo_from_ply\<close> builds for one eye of a frame: the resolved
  parameters of the frame, the eye's camera position, the default rotation and
  background, no subsampling and no extra arguments.
\<close>

definition eye_output :: "config \<Rightarrow> path \<Rightarrow> eye \<Rightarrow> path" where
  "eye_output cfg ply_path e = (if e = Left then left_path cfg ply_path else right_path cfg ply_path)"

definition eye_position :: "real \<Rightarrow> eye \<Rightarrow> real list" where
  "eye_position d e =
     (case stereo_camera_positions DEFAULT_CAM_POS d of
        Inl err \<Rightarrow> []
      | Inr (left_pos, right_pos) \<Rightarrow> if e = Left then left_pos else right_pos)"

definition eye_command :: "config \<Rightarrow> path \<Rightarrow> eye \<Rightarrow> string list" where
  "eye_command cfg ply_path e =
     (let params = resolve_render_params (parse_ply_metadata cfg) ply_path RenderArgs in
      case build_brush_command (str_float cfg) (brush_bin cfg) (str_path ply_path)
             (str_path (eye_output cfg ply_path e))
             (Some (width params)) (Some (height params)) (fov_x params) (fov_y params)
             (focal_x params) (focal_y params) (center_x params) (center_y params)
             (eye_position (ipd cfg) e) DEFAULT_CAM_ROT DEFAULT_BG None [] of
        Inl err \<Rightarrow> []
      | Inr cmd \<Rightarrow> cmd)"

text \<open>Which frame an event of the trace is about.\<close>

fun concerns :: "path \<Rightarrow> event \<Rightarrow> bool" where
  "concerns p (Resolve q) = (q = p)"
| "concerns p (Invoke q out cmd) = (q = p)"
| "concerns p (Unlink q) = (q = p)"
| "concerns p Sleep = False"

text \<open>The frames handed to the per-frame job, in the order of the trace.\<close>

fun rendered_frames :: "event list \<Rightarrow> path list" where
  "rendered_frames [] = []"
| "rendered_frames (Resolve p # evs) = p # rendered_frames evs"
| "rendered_frames (e # evs) = rendered_frames evs"

text \<open>
  Successive polls of one file: before each poll the file has the next size of the list,
  then \<open>is_stable\<close> is asked. The result lists the answers.
\<close>

fun observe :: "path \<Rightarrow> nat list \<Rightarrow> state \<Rightarrow> bool list" where
  "observe p [] st = []"
| "observe p (sz # sizes) st =
     (case is_stable p (st\<lparr>fs := (fs st)\<lparr>st_size := (st_size (fs st))(p := sz)\<rparr>\<rparr>) of
        (Inl e, st') \<Rightarrow> []
      | (Inr answer, st') \<Rightarrow> answer # observe p sizes st')"

text \<open>Metadata parsers, a float printer and file systems for the concrete cases.\<close>

definition example_intrinsics :: intrinsics where
  "example_intrinsics = ((1000, 0, 960), (0, 1000, 540), (0, 0, 1))"

definition no_metadata :: "path \<Rightarrow> ply_metadata" where
  "no_metadata p = (None, None)"

definition example_metadata :: "path \<Rightarrow> ply_metadata" where
  "example_metadata p = (Some example_intrinsics, Some (1920, 1080))"

definition zero_size_metadata :: "path \<Rightarrow> ply_metadata" where
  "zero_size_metadata p = (Some example_intrinsics, Some (0, 0))"

definition example_str_float :: "real \<Rightarrow> string" where
  "example_str_float x =
     (if x = 0 then ''0.0'' else if x = 1 then ''1.0'' else if x = 0.5 then ''0.5''
      else if x = 60 then ''60.0'' else if x < 0 then ''-0.0315'' else ''0.0315'')"

definition frame0 :: path where
  "frame0 = Path ''/data/in'' ''frame_000000.ply''"

definition example_left_command :: "string list" where
  "example_left_command =
     [''brush-render'', ''/data/in/frame_000000.ply'', ''--output'', ''/data/out/frame_000000_left.png'',
      ''--width'', ''1920'', ''--height'', ''1080'', ''--fov-x'', ''60.0'',
      ''--center-x'', ''0.5'', ''--center-y'', ''0.5'',
      ''--cam-pos'', ''-0.0315'', ''0.0'', ''0.0'',
      ''--cam-rot'', ''0.0'', ''0.0'', ''0.0'', ''1.0'',
      ''--background'', ''0.0'', ''0.0'', ''0.0'']"

definition size_100 :: "path \<Rightarrow> nat" where
  "size_100 p = 100"

definition always_fail :: "string list \<Rightarrow> int" where
  "always_fail cmd = 1"

definition always_ok :: "string list \<Rightarrow> int" where
  "always_ok cmd = 0"

definition example_config :: "(string list \<Rightarrow> int) \<Rightarrow> bool \<Rightarrow> bool \<Rightarrow> config" where
  "example_config run w s =
     \<lparr> input_path = Path ''/data'' ''in'', input_is_file = False,
       output_dir = Path ''/data'' ''out'', brush_bin = ''brush-render'', ipd = 0.063,
       watch = w, sequential = s, keep_temp = True, parse_ply_metadata = no_metadata,
       run_brush = run, str_float = example_str_float \<rparr>"

definition frame0_only :: filesystem where
  "frame0_only = \<lparr> present = [frame0], st_size = size_100 \<rparr>"

text \<open>A world in which nothing changes between the turns of the loop.\<close>

definition quiet_world :: "nat \<Rightarrow> filesystem \<Rightarrow> filesystem" where
  "quiet_world t f = f"

text \<open>Two frames named outside the six-digit convention, and a frame already rendered.\<close>

definition frame9 :: path where "frame9 = Path ''/data/in'' ''frame_9.ply''"

definition frame10 :: path where "frame10 = Path ''/data/in'' ''frame_10.ply''"


definition frame0_done :: filesystem where
  "frame0_done =
     \<lparr> present = [frame0, Path ''/data/out'' ''frame_000000_left.png'',
                    Path ''/data/out'' ''frame_000000_right.png''],
       st_size = size_100 \<rparr>"

text \<open>
  The output image of one eye of frame \<open>i\<close> under the sequential naming: the output path
  the per-frame job computes for the input \<^verbatim>\<open>frame_{i:06d}.ply\<close>. The suffix removed from the
  stem and the pattern listed by \<^verbatim>\<open>next_expected_index\<close> for each eye. An output directory
  holding the left image of frame 3 and nothing else.
\<close>

definition frame_output :: "config \<Rightarrow> nat \<Rightarrow> eye \<Rightarrow> path" where
  "frame_output cfg i e = eye_output cfg (expected_path cfg (int i)) e"

definition eye_suffix :: "eye \<Rightarrow> string" where
  "eye_suffix e = (if e = Left then ''_left'' else ''_right'')"

definition eye_pattern :: "eye \<Rightarrow> string" where
  "eye_pattern e = (if e = Left then ''frame_*_left.png'' else ''frame_*_right.png'')"

definition left3_only :: filesystem where
  "left3_only = \<lparr> present = [Path ''/data/out'' ''frame_000003_left.png''], st_size = size_100 \<rparr>"

text \<open>
  The frames of a batch whose job fails, and a batch of numbered frames in which the
  job of frame 2 fails.
\<close>

definition failed_frames ::
  "(string list \<Rightarrow> int) \<Rightarrow> string \<Rightarrow> path \<Rightarrow> path list \<Rightarrow> path list" where
  "failed_frames run sys_executable stereo_dir ply_files =
     filter (\<lambda>p. run (ply_to_stereo_command sys_executable p stereo_dir) \<noteq> 0) ply_files"

definition frame_ply :: "nat \<Rightarrow> path" where
  "frame_ply i = Path ''/data/ply'' (''frame_'' @ format_06d (int i) @ ''.ply'')"

definition stereo_dir0 :: path where
  "stereo_dir0 = Path ''/data'' ''stereo_frames''"

definition fail_frame2 :: "string list \<Rightarrow> int" where
  "fail_frame2 cmd = (if ''/data/ply/frame_000002.ply'' \<in> set cmd then 1 else 0)"






section \<open>Verified properties\<close>

subsection \<open>Stereo camera planner\<close>

text \<open>
  Claim C8. For every base position \<open>(x, y, z)\<close> and every interpupillary distance
  (zero and negative ones included) the planner returns
  \<open>left = (x - ipd/2, y, z)\<close> and \<open>right = (x + ipd/2, y, z)\<close>; the base \<open>(0, 0, 0)\<close>
  with \<open>ipd = 0.064\<close> gives \<open>(-0.032, 0, 0)\<close> and \<open>(0.032, 0, 0)\<close>.
\<close>

theorem stereo_camera_positions_offsets:
  "stereo_camera_positions [x, y, z] d = Inr ([x - d / 2, y, z], [x + d / 2, y, z])
   \<and> stereo_camera_positions [0, 0, 0] 0.064 = Inr ([- 0.032, 0, 0], [0.032, 0, 0])"
  by (simp add: stereo_camera_positions_def Let_def)


subsection \<open>Render parameter resolver\<close>

lemma resolve_width:
  "width (resolve_render_params parse p a) =
     (case args_width a of Some v \<Rightarrow> v | None \<Rightarrow>
        (case snd (embedded_metadata parse p a) of Some s \<Rightarrow> fst s | None \<Rightarrow> 1920))"
  by (simp add: resolve_render_params_def Let_def case_prod_beta)

lemma resolve_height:
  "height (resolve_render_params parse p a) =
     (case args_height a of Some v \<Rightarrow> v | None \<Rightarrow>
        (case snd (embedded_metadata parse p a) of Some s \<Rightarrow> snd s | None \<Rightarrow> 1080))"
  by (simp add: resolve_render_params_def Let_def case_prod_beta)

lemma resolve_focal_x:
  "focal_x (resolve_render_params parse p a) =
     (case args_focal_x a of Some v \<Rightarrow> Some v | None \<Rightarrow>
        (case fst (embedded_metadata parse p a) of Some m \<Rightarrow> Some (mat_at m 0 0) | None \<Rightarrow> None))"
  by (simp add: resolve_render_params_def Let_def case_prod_beta split: option.split)

lemma resolve_focal_y:
  "focal_y (resolve_render_params parse p a) =
     (case args_focal_y a of Some v \<Rightarrow> Some v | None \<Rightarrow>
        (case fst (embedded_metadata parse p a) of Some m \<Rightarrow> Some (mat_at m 1 1) | None \<Rightarrow> None))"
  by (simp add: resolve_render_params_def Let_def case_prod_beta split: option.split)

lemma resolve_center_x:
  "center_x (resolve_render_params parse p a) =
     (case args_center_x a of Some v \<Rightarrow> v | None \<Rightarrow>
        (case fst (embedded_metadata parse p a) of None \<Rightarrow> 0.5 | Some m \<Rightarrow>
           if width (resolve_render_params parse p a) = 0 then 0.5
           else mat_at m 0 2 / real_of_int (width (resolve_render_params parse p a))))"
  by (simp add: resolve_render_params_def Let_def case_prod_beta split: option.split)

lemma resolve_center_y:
  "center_y (resolve_render_params parse p a) =
     (case args_center_y a of Some v \<Rightarrow> v | None \<Rightarrow>
        (case fst (embedded_metadata parse p a) of None \<Rightarrow> 0.5 | Some m \<Rightarrow>
           if height (resolve_render_params parse p a) = 0 then 0.5
           else mat_at m 1 2 / real_of_int (height (resolve_render_params parse p a))))"
  by (simp add: resolve_render_params_def Let_def case_prod_beta split: option.split)

lemma resolve_fov_x:
  "fov_x (resolve_render_params parse p a) =
     (case args_fov_x a of Some v \<Rightarrow> Some v | None \<Rightarrow>
        if focal_x (resolve_render_params parse p a) = None then Some 60 else None)"
  by (simp add: resolve_render_params_def Let_def case_prod_beta split: option.split)

lemma resolve_fov_y: "fov_y (resolve_render_params parse p a) = args_fov_y a"
  by (simp add: resolve_render_params_def Let_def case_prod_beta)

text \<open>
  Claim C6, as the code has it. The embedded metadata is what \<open>embedded_metadata\<close>
  returns: the parser's result when \<^verbatim>\<open>use_ply_camera\<close> is on, nothing otherwise.
  Width and height: the override, else the embedded image size, else 1920 and 1080.
  Focal lengths: the override, else the diagonal entries of the embedded intrinsic
  matrix, else unset. Centre: the override; else, with an embedded matrix, its
  principal point divided by the resolved width (height) when that is not zero, and
  0.5 when it is zero; else 0.5. Horizontal field of view: the override, else 60 exactly
  when the resolved horizontal focal length is unset. Vertical field of view: the
  override only.
\<close>

theorem resolve_render_params_precedence:
  "width (resolve_render_params parse p a) =
     (case args_width a of Some v \<Rightarrow> v | None \<Rightarrow>
        (case snd (embedded_metadata parse p a) of Some s \<Rightarrow> fst s | None \<Rightarrow> 1920))
   \<and> height (resolve_render_params parse p a) =
     (case args_height a of Some v \<Rightarrow> v | None \<Rightarrow>
        (case snd (embedded_metadata parse p a) of Some s \<Rightarrow> snd s | None \<Rightarrow> 1080))
   \<and> focal_x (resolve_render_params parse p a) =
     (case args_focal_x a of Some v \<Rightarrow> Some v | None \<Rightarrow>
        (case fst (embedded_metadata parse p a) of Some m \<Rightarrow> Some (mat_at m 0 0) | None \<Rightarrow> None))
   \<and> focal_y (resolve_render_params parse p a) =
     (case args_focal_y a of Some v \<Rightarrow> Some v | None \<Rightarrow>
        (case fst (embedded_metadata parse p a) of Some m \<Rightarrow> Some (mat_at m 1 1) | None \<Rightarrow> None))
   \<and> center_x (resolve_render_params parse p a) =
     (case args_center_x a of Some v \<Rightarrow> v | None \<Rightarrow>
        (case fst (embedded_metadata parse p a) of None \<Rightarrow> 0.5 | Some m \<Rightarrow>
           if width (resolve_render_params parse p a) = 0 then 0.5
           else mat_at m 0 2 / real_of_int (width (resolve_render_params parse p a))))
   \<and> center_y (resolve_render_params parse p a) =
     (case args_center_y a of Some v \<Rightarrow> v | None \<Rightarrow>
        (case fst (embedded_metadata parse p a) of None \<Rightarrow> 0.5 | Some m \<Rightarrow>
           if height (resolve_render_params parse p a) = 0 then 0.5
           else mat_at m 1 2 / real_of_int (height (resolve_render_params parse p a))))
   \<and> fov_x (resolve_render_params parse p a) =
     (case args_fov_x a of Some v \<Rightarrow> Some v | None \<Rightarrow>
        if focal_x (resolve_render_params parse p a) = None then Some 60 else None)
   \<and> fov_y (resolve_render_params parse p a) = args_fov_y a"
  using resolve_width [of parse p a] resolve_height [of parse p a]
        resolve_focal_x [of parse p a] resolve_focal_y [of parse p a]
        resolve_center_x [of parse p a] resolve_center_y [of parse p a]
        resolve_fov_x [of parse p a] resolve_fov_y [of parse p a]
  by blast

text \<open>
  The two cases of the specification: no metadata and no override gives 1920 by 1080,
  field of view 60, centre (0.5, 0.5), no focal length; the intrinsic matrix
  \<open>[[1000,0,960],[0,1000,540],[0,0,1]]\<close> with image size 1920 by 1080 gives focal
  lengths 1000 and centre (0.5, 0.5).
\<close>

theorem resolve_render_params_examples:
  "resolve_render_params no_metadata frame0 RenderArgs =
     \<lparr> width = 1920, height = 1080, fov_x = Some 60, fov_y = None,
       focal_x = None, focal_y = None, center_x = 0.5, center_y = 0.5 \<rparr>
   \<and> resolve_render_params example_metadata frame0 RenderArgs =
     \<lparr> width = 1920, height = 1080, fov_x = None, fov_y = None,
       focal_x = Some 1000, focal_y = Some 1000, center_x = 0.5, center_y = 0.5 \<rparr>"
  using resolve_render_params_precedence [of no_metadata frame0 RenderArgs]
        resolve_render_params_precedence [of example_metadata frame0 RenderArgs]
  by (simp add: embedded_metadata_def no_metadata_def example_metadata_def RenderArgs_def
        example_intrinsics_def)

text \<open>
  Where the claim as worded fails: a file whose embedded image size is 0 by 0 and whose
  intrinsic matrix has the principal point 960. No override is given and the embedded
  principal point is there, yet the resolved centre is 0.5, which is not that principal
  point normalised by the resolved width (no number times 0 is 960).
\<close>

theorem resolve_center_zero_width_counterexample:
  "args_center_x RenderArgs = None
   \<and> fst (embedded_metadata zero_size_metadata frame0 RenderArgs) = Some example_intrinsics
   \<and> mat_at example_intrinsics 0 2 = 960
   \<and> width (resolve_render_params zero_size_metadata frame0 RenderArgs) = 0
   \<and> center_x (resolve_render_params zero_size_metadata frame0 RenderArgs) = 0.5
   \<and> center_x (resolve_render_params zero_size_metadata frame0 RenderArgs)
       * real_of_int (width (resolve_render_params zero_size_metadata frame0 RenderArgs))
       \<noteq> mat_at example_intrinsics 0 2"
  by (simp add: resolve_render_params_def embedded_metadata_def zero_size_metadata_def
        RenderArgs_def example_intrinsics_def Let_def)

subsection \<open>Renderer command line\<close>

lemma opt_arg_set: "flag \<in> set (opt_arg flag f (Some v))"
  by (simp add: opt_arg_def)

lemma resolve_horizontal:
  "fov_x (resolve_render_params parse p a) \<noteq> None
   \<or> focal_x (resolve_render_params parse p a) \<noteq> None"
  by (simp add: resolve_fov_x split: option.split)

text \<open>
  Claim C7. Whatever the overrides, the metadata and the remaining arguments, a command
  line built from a resolved parameter set contains \<^verbatim>\<open>--fov-x\<close> or \<^verbatim>\<open>--focal-x\<close>; and
  when no focal override, no field-of-view override and no embedded matrix is there,
  the resolved field of view is 60 and \<^verbatim>\<open>--fov-x\<close> is on the command line.
\<close>

theorem resolved_command_has_horizontal_projection:
  assumes "build_brush_command to_str bin ply out
             (Some (width (resolve_render_params parse p a)))
             (Some (height (resolve_render_params parse p a)))
             (fov_x (resolve_render_params parse p a))
             (fov_y (resolve_render_params parse p a))
             (focal_x (resolve_render_params parse p a))
             (focal_y (resolve_render_params parse p a))
             (center_x (resolve_render_params parse p a))
             (center_y (resolve_render_params parse p a))
             cam_pos cam_rot background subsample_points extra_args = Inr cmd"
  shows "(''--fov-x'' \<in> set cmd \<or> ''--focal-x'' \<in> set cmd)
       \<and> (args_focal_x a = None \<and> args_fov_x a = None
            \<and> fst (embedded_metadata parse p a) = None
          \<longrightarrow> fov_x (resolve_render_params parse p a) = Some 60
              \<and> ''--fov-x'' \<in> set cmd)"
proof -
  let ?r = "resolve_render_params parse p a"
  have mem: "set (opt_arg ''--fov-x'' to_str (fov_x ?r)) \<subseteq> set cmd"
            "set (opt_arg ''--focal-x'' to_str (focal_x ?r)) \<subseteq> set cmd"
    using assms by (auto simp: build_brush_command_def split: if_splits)
  have a: "''--fov-x'' \<in> set cmd" if "fov_x ?r \<noteq> None"
    using that mem(1) opt_arg_set [of "''--fov-x''" to_str] by auto
  have b: "''--focal-x'' \<in> set cmd" if "focal_x ?r \<noteq> None"
    using that mem(2) opt_arg_set [of "''--focal-x''" to_str] by auto
  have c: "fov_x ?r = Some 60"
    if "args_focal_x a = None" "args_fov_x a = None" "fst (embedded_metadata parse p a) = None"
    using that by (simp add: resolve_fov_x resolve_focal_x)
  show ?thesis using a b c resolve_horizontal [of parse p a] by auto
qed

lemma str_int_1920: "str_int 1920 = ''1920''" "str_int 1080 = ''1080''"
  by (simp_all add: str_int_def str_nat.simps digit_char_def)

lemma example_build:
  "build_brush_command example_str_float ''brush-render'' ''/data/in/frame_000000.ply''
         ''/data/out/frame_000000_left.png''
         (Some (width (resolve_render_params no_metadata frame0 RenderArgs)))
         (Some (height (resolve_render_params no_metadata frame0 RenderArgs)))
         (fov_x (resolve_render_params no_metadata frame0 RenderArgs))
         (fov_y (resolve_render_params no_metadata frame0 RenderArgs))
         (focal_x (resolve_render_params no_metadata frame0 RenderArgs))
         (focal_y (resolve_render_params no_metadata frame0 RenderArgs))
         (center_x (resolve_render_params no_metadata frame0 RenderArgs))
         (center_y (resolve_render_params no_metadata frame0 RenderArgs))
         [- 0.0315, 0, 0] DEFAULT_CAM_ROT DEFAULT_BG None [] = Inr example_left_command"
  by (simp add: resolve_width resolve_height resolve_fov_x resolve_fov_y resolve_focal_x
        resolve_focal_y resolve_center_x resolve_center_y embedded_metadata_def no_metadata_def
        RenderArgs_def build_brush_command_def opt_arg_def str_int_1920 example_str_float_def
        DEFAULT_CAM_ROT_def DEFAULT_BG_def example_left_command_def)

text \<open>
  The command line of the left eye of \<^verbatim>\<open>frame_000000.ply\<close> without metadata, with the
  default distance 0.063 between the eyes.
\<close>

theorem resolved_command_witness:
  "build_brush_command example_str_float ''brush-render'' ''/data/in/frame_000000.ply''
         ''/data/out/frame_000000_left.png''
         (Some (width (resolve_render_params no_metadata frame0 RenderArgs)))
         (Some (height (resolve_render_params no_metadata frame0 RenderArgs)))
         (fov_x (resolve_render_params no_metadata frame0 RenderArgs))
         (fov_y (resolve_render_params no_metadata frame0 RenderArgs))
         (focal_x (resolve_render_params no_metadata frame0 RenderArgs))
         (focal_y (resolve_render_params no_metadata frame0 RenderArgs))
         (center_x (resolve_render_params no_metadata frame0 RenderArgs))
         (center_y (resolve_render_params no_metadata frame0 RenderArgs))
         [- 0.0315, 0, 0] DEFAULT_CAM_ROT DEFAULT_BG None [] = Inr example_left_command
   \<and> args_focal_x RenderArgs = None \<and> args_fov_x RenderArgs = None
   \<and> fst (embedded_metadata no_metadata frame0 RenderArgs) = None
   \<and> fov_x (resolve_render_params no_metadata frame0 RenderArgs) = Some 60
   \<and> ''--fov-x'' \<in> set example_left_command"
  using resolved_command_has_horizontal_projection [OF example_build] example_build
  by (simp add: RenderArgs_def embedded_metadata_def no_metadata_def)

subsection \<open>Per-frame stereo job\<close>

lemma eye_position_simps:
  "eye_position d Left = [0 - d * 0.5, 0, 0]" "eye_position d Right = [0 + d * 0.5, 0, 0]"
  "stereo_camera_positions DEFAULT_CAM_POS d = Inr (eye_position d Left, eye_position d Right)"
  by (simp_all add: eye_position_def stereo_camera_positions_def DEFAULT_CAM_POS_def Let_def)

lemma build_default_ok:
  "length pos = 3 \<Longrightarrow>
   \<exists>cmd. build_brush_command f bin a b w h fovx fovy fx fy cx cy pos DEFAULT_CAM_ROT DEFAULT_BG
            sub extra = Inr cmd"
  by (simp add: build_brush_command_def DEFAULT_CAM_ROT_def DEFAULT_BG_def)

lemma eye_command_build:
  "build_brush_command (str_float cfg) (brush_bin cfg) (str_path p)
     (str_path (eye_output cfg p e))
     (Some (width (resolve_render_params (parse_ply_metadata cfg) p RenderArgs)))
     (Some (height (resolve_render_params (parse_ply_metadata cfg) p RenderArgs)))
     (fov_x (resolve_render_params (parse_ply_metadata cfg) p RenderArgs))
     (fov_y (resolve_render_params (parse_ply_metadata cfg) p RenderArgs))
     (focal_x (resolve_render_params (parse_ply_metadata cfg) p RenderArgs))
     (focal_y (resolve_render_params (parse_ply_metadata cfg) p RenderArgs))
     (center_x (resolve_render_params (parse_ply_metadata cfg) p RenderArgs))
     (center_y (resolve_render_params (parse_ply_metadata cfg) p RenderArgs))
     (eye_position (ipd cfg) e) DEFAULT_CAM_ROT DEFAULT_BG None [] = Inr (eye_command cfg p e)"
proof -
  have "length (eye_position (ipd cfg) e) = 3"
    by (cases e) (simp_all add: eye_position_simps)
  from build_default_ok [OF this] show ?thesis
    unfolding eye_command_def Let_def by (metis sum.case(2))
qed

lemma render_eye_eq:
  "render_eye cfg p (eye_output cfg p e)
     (resolve_render_params (parse_ply_metadata cfg) p RenderArgs) (eye_position (ipd cfg) e) st =
   (Inr (run_brush cfg (eye_command cfg p e)),
    st\<lparr>fs := (if run_brush cfg (eye_command cfg p e) = 0
               then create_file (eye_output cfg p e) (fs st) else fs st),
       trace := trace st @ [Invoke p (eye_output cfg p e) (eye_command cfg p e)]\<rparr>)"
  unfolding render_eye_def render_file_def
  by (simp add: eye_command_build Let_def)

lemma render_stereo_from_ply_eq:
  "render_stereo_from_ply cfg p st =
     (if run_brush cfg (eye_command cfg p Left) \<noteq> 0 then
        (Inl (RuntimeError (name p) Left),
         st\<lparr>trace := trace st @
               [Resolve p, Invoke p (left_path cfg p) (eye_command cfg p Left)]\<rparr>)
      else if run_brush cfg (eye_command cfg p Right) \<noteq> 0 then
        (Inl (RuntimeError (name p) Right),
         st\<lparr>fs := create_file (left_path cfg p) (fs st),
            trace := trace st @
               [Resolve p, Invoke p (left_path cfg p) (eye_command cfg p Left),
                Invoke p (right_path cfg p) (eye_command cfg p Right)]\<rparr>)
      else
        (Inr (),
         st\<lparr>fs := create_file (right_path cfg p) (create_file (left_path cfg p) (fs st)),
            trace := trace st @
               [Resolve p, Invoke p (left_path cfg p) (eye_command cfg p Left),
                Invoke p (right_path cfg p) (eye_command cfg p Right)]\<rparr>))"
proof -
  have l: "left_path cfg p = eye_output cfg p Left" and r: "right_path cfg p = eye_output cfg p Right"
    by (simp_all add: eye_output_def)
  show ?thesis
    unfolding render_stereo_from_ply_def Let_def eye_position_simps(3) l r
    by (simp add: render_eye_eq)
qed

text \<open>
  Claim C5. The per-frame job runs the resolver, then the renderer for the left eye.
  If that exits with a non-zero status the job raises the error naming the file and the
  left eye, and the renderer has run once, for the left output only. Otherwise the
  renderer runs for the right eye, and a non-zero status there raises the error naming
  the file and the right eye. The trace shows the order: left before right.
\<close>

theorem render_stereo_from_ply_fail_fast:
  "render_stereo_from_ply cfg p st =
     (if run_brush cfg (eye_command cfg p Left) \<noteq> 0 then
        (Inl (RuntimeError (name p) Left),
         st\<lparr>trace := trace st @
               [Resolve p, Invoke p (left_path cfg p) (eye_command cfg p Left)]\<rparr>)
      else if run_brush cfg (eye_command cfg p Right) \<noteq> 0 then
        (Inl (RuntimeError (name p) Right),
         st\<lparr>fs := create_file (left_path cfg p) (fs st),
            trace := trace st @
               [Resolve p, Invoke p (left_path cfg p) (eye_command cfg p Left),
                Invoke p (right_path cfg p) (eye_command cfg p Right)]\<rparr>)
      else
        (Inr (),
         st\<lparr>fs := create_file (right_path cfg p) (create_file (left_path cfg p) (fs st)),
            trace := trace st @
               [Resolve p, Invoke p (left_path cfg p) (eye_command cfg p Left),
                Invoke p (right_path cfg p) (eye_command cfg p Right)]\<rparr>))"
  by (rule render_stereo_from_ply_eq)

subsection \<open>Stability check\<close>

lemma is_stable_present:
  "path_exists st p \<Longrightarrow>
   is_stable p st =
     (Inr (seen_sizes st p = Some (st_size (fs st) p) \<and> 0 < st_size (fs st) p),
      st\<lparr>seen_sizes := (seen_sizes st)(p \<mapsto> st_size (fs st) p)\<rparr>)"
  by (auto simp: is_stable_def Let_def)

lemma observe_nth:
  "path_exists st p \<Longrightarrow> k < length sizes \<Longrightarrow>
   length (observe p sizes st) = length sizes
   \<and> observe p sizes st ! k =
       ((if k = 0 then seen_sizes st p else Some (sizes ! (k - 1))) = Some (sizes ! k)
        \<and> 0 < sizes ! k)"
proof (induction sizes arbitrary: st k)
  case Nil
  then show ?case by simp
next
  case (Cons sz sizes)
  let ?st0 = "st\<lparr>fs := (fs st)\<lparr>st_size := (st_size (fs st))(p := sz)\<rparr>\<rparr>"
  let ?st1 = "?st0\<lparr>seen_sizes := (seen_sizes ?st0)(p \<mapsto> sz)\<rparr>"
  have ex0: "path_exists ?st0 p" using Cons.prems(1) by (simp add: path_exists_def)
  have stab: "is_stable p ?st0 = (Inr (seen_sizes st p = Some sz \<and> 0 < sz), ?st1)"
    using is_stable_present [OF ex0] by simp
  have ex1: "path_exists ?st1 p" using ex0 by (simp add: path_exists_def)
  have unfold: "observe p (sz # sizes) st = (seen_sizes st p = Some sz \<and> 0 < sz) # observe p sizes ?st1"
    using stab by simp
  have len: "length (observe p sizes ?st1) = length sizes"
  proof (cases sizes)
    case Nil
    then show ?thesis by simp
  next
    case (Cons a list)
    then have "0 < length sizes" by simp
    from Cons.IH [OF ex1 this] show ?thesis by simp
  qed
  show ?case
  proof (cases k)
    case 0
    then show ?thesis using unfold len by simp
  next
    case (Suc j)
    then have j: "j < length sizes" using Cons.prems(2) by simp
    from Cons.IH [OF ex1 j] have
      "observe p sizes ?st1 ! j =
        ((if j = 0 then Some sz else Some (sizes ! (j - 1))) = Some (sizes ! j) \<and> 0 < sizes ! j)"
      by simp
    then show ?thesis using unfold len Suc by (cases j) simp_all
  qed
qed

text \<open>
  Claim C9. A file not seen before is polled with the sizes \<open>sizes\<close>, one per poll.
  Every poll is answered, and the poll number \<open>k\<close> says eligible exactly when it is not
  the first, its size equals the size of the poll just before, and that size is not
  zero. So a change of size makes the file wait for a later poll that repeats the
  size last recorded.
\<close>

theorem is_stable_two_equal_observations:
  assumes "path_exists st p" and "seen_sizes st p = None" and "k < length sizes"
  shows "length (observe p sizes st) = length sizes
       \<and> observe p sizes st ! k = (0 < k \<and> sizes ! (k - 1) = sizes ! k \<and> 0 < sizes ! k)"
  using observe_nth [OF assms(1) assms(3)] assms(2) by auto

lemma frame0_present: "path_exists (initial_state frame0_only) frame0"
  by (simp add: path_exists_def initial_state_def frame0_only_def)

lemma frame0_unseen: "seen_sizes (initial_state frame0_only) frame0 = None"
  by (simp add: initial_state_def)

text \<open>
  Sizes 100, 100: eligible at the second poll. Sizes 100, 150: not eligible at the
  second poll; a third poll of 150 makes it eligible.
\<close>

theorem is_stable_observations_witness:
  "path_exists (initial_state frame0_only) frame0
   \<and> seen_sizes (initial_state frame0_only) frame0 = None
   \<and> observe frame0 [100, 100] (initial_state frame0_only) ! 1 = True
   \<and> observe frame0 [100, 150] (initial_state frame0_only) ! 1 = False
   \<and> observe frame0 [100, 150, 150] (initial_state frame0_only) ! 2 = True"
  using is_stable_two_equal_observations [OF frame0_present frame0_unseen, of 1 "[100, 100]"]
        is_stable_two_equal_observations [OF frame0_present frame0_unseen, of 1 "[100, 150]"]
        is_stable_two_equal_observations [OF frame0_present frame0_unseen, of 2 "[100, 150, 150]"]
        frame0_present frame0_unseen
  by simp

text \<open>
  A renderer that always fails: the job for \<^verbatim>\<open>frame_000000.ply\<close> stops after the left eye.
\<close>

theorem render_stereo_left_failure_witness:
  "run_brush (example_config always_fail False False)
       (eye_command (example_config always_fail False False) frame0 Left) \<noteq> 0
   \<and> render_stereo_from_ply (example_config always_fail False False) frame0
        (initial_state frame0_only) =
      (Inl (RuntimeError ''frame_000000.ply'' Left),
       (initial_state frame0_only)\<lparr>trace :=
          [Resolve frame0,
           Invoke frame0 (Path ''/data/out'' ''frame_000000_left.png'')
             (eye_command (example_config always_fail False False) frame0 Left)]\<rparr>)"
  using render_stereo_from_ply_fail_fast [of "example_config always_fail False False" frame0
          "initial_state frame0_only"]
  by (simp add: example_config_def always_fail_def initial_state_def frame0_def left_path_def
        child_def str_path_def stem_def stem_of_def rfind_def)

subsection \<open>One pass over the input directory\<close>

lemma rendered_frames_append:
  "rendered_frames (xs @ ys) = rendered_frames xs @ rendered_frames ys"
  by (induction xs rule: rendered_frames.induct) simp_all

lemma concerns_unique: "concerns p e \<Longrightarrow> concerns q e \<Longrightarrow> p = q"
  by (cases e) simp_all

lemma render_stereo_effect:
  "\<exists>evs. trace (snd (render_stereo_from_ply cfg p st)) = trace st @ Resolve p # evs
       \<and> rendered_frames evs = [] \<and> (\<forall>e\<in>set evs. concerns p e)
       \<and> set (present (fs st)) \<subseteq> set (present (fs (snd (render_stereo_from_ply cfg p st))))"
  by (auto simp: render_stereo_from_ply_eq create_file_def)

lemma is_stable_effect:
  "trace (snd (is_stable p st)) = trace st \<and> fs (snd (is_stable p st)) = fs st"
  by (simp add: is_stable_def Let_def)

lemma should_process_fs:
  "fs st' = fs st \<Longrightarrow> should_process cfg p st' = should_process cfg p st"
  by (simp add: should_process_def path_exists_def)

lemma process_frames_skip:
  "\<not> should_process cfg p st \<Longrightarrow> process_frames cfg [p] False st = (Inr False, st)"
  by simp

lemma process_frames_Cons:
  "process_frames cfg (p # ps) ra st =
     (case process_frames cfg [p] False st of
        (Inl e, st1) \<Rightarrow> (Inl e, st1)
      | (Inr b, st1) \<Rightarrow> process_frames cfg ps (ra \<or> b) st1)"
  by (simp add: Let_def split: prod.split sum.split)

lemma frame_step_effect:
  assumes "process_frames cfg [p] False st = (r, st')"
  shows "\<exists>evs. trace st' = trace st @ evs
          \<and> (rendered_frames evs = [] \<or> rendered_frames evs = [p])
          \<and> (\<forall>e\<in>set evs. concerns p e)
          \<and> (\<forall>x. x \<noteq> p \<longrightarrow> path_exists st x \<longrightarrow> path_exists st' x)"
proof (cases "should_process cfg p st")
  case False
  then show ?thesis using assms by simp
next
  case True
  obtain r1 st1 where s1: "(if watch cfg then is_stable p st else (Inr True, st)) = (r1, st1)"
    by (cases "if watch cfg then is_stable p st else (Inr True, st)") auto
  then have st1: "trace st1 = trace st" "fs st1 = fs st"
    using is_stable_effect [of p st] by (auto split: if_splits)
  show ?thesis
  proof (cases r1)
    case (Inl e)
    then show ?thesis using assms True s1 st1 by (simp add: path_exists_def)
  next
    case (Inr ok)
    show ?thesis
    proof (cases ok)
      case False
      then show ?thesis using assms True s1 st1 Inr by (simp add: path_exists_def)
    next
      case ok: True
      obtain r2 st2 where s2: "render_stereo_from_ply cfg p st1 = (r2, st2)"
        by (cases "render_stereo_from_ply cfg p st1") auto
      from render_stereo_effect [of cfg p st1] s2 obtain evs where
        evs: "trace st2 = trace st1 @ Resolve p # evs" "rendered_frames evs = []"
             "\<forall>e\<in>set evs. concerns p e"
             "set (present (fs st1)) \<subseteq> set (present (fs st2))"
        by auto
      show ?thesis
      proof (cases r2)
        case (Inl e)
        then have "st' = st2" using assms True s1 Inr ok s2 by simp
        then show ?thesis using evs st1 by (auto simp: path_exists_def)
      next
        case r2: (Inr u)
        let ?st3 = "if \<not> keep_temp cfg then unlink p st2 else st2"
        have st': "st' = ?st3\<lparr>processed := insert p (processed ?st3)\<rparr>"
          using assms True s1 Inr ok s2 r2 by (simp add: Let_def)
        have tr: "trace st' = trace st @ (Resolve p # evs @ (if \<not> keep_temp cfg then [Unlink p] else []))"
          using st' evs(1) st1 by (simp add: unlink_def)
        have ex: "\<forall>x. x \<noteq> p \<longrightarrow> path_exists st x \<longrightarrow> path_exists st' x"
          using st' evs(4) st1 by (auto simp: path_exists_def unlink_def)
        show ?thesis using tr ex evs(2,3) by (auto simp: rendered_frames_append)
      qed
    qed
  qed
qed


lemma process_frames_effect:
  "process_frames cfg ps ra st = (r, st') \<Longrightarrow>
   \<exists>evs. trace st' = trace st @ evs
        \<and> subseq (rendered_frames evs) ps
        \<and> (\<forall>e\<in>set evs. \<exists>q\<in>set ps. concerns q e)"
proof (induction ps arbitrary: ra st)
  case Nil
  then show ?case by simp
next
  case (Cons p ps)
  obtain r1 st1 where s1: "process_frames cfg [p] False st = (r1, st1)"
    by (cases "process_frames cfg [p] False st") auto
  from frame_step_effect [OF s1] obtain evs1 where
    e1: "trace st1 = trace st @ evs1" "rendered_frames evs1 = [] \<or> rendered_frames evs1 = [p]"
        "\<forall>e\<in>set evs1. concerns p e"
    by blast
  have sub1: "subseq (rendered_frames evs1) [p]" using e1(2) by auto
  show ?case
  proof (cases r1)
    case (Inl e)
    then have "st' = st1" using Cons.prems s1 process_frames_Cons [of cfg p ps ra st]
      by (simp del: process_frames.simps)
    moreover have "subseq (rendered_frames evs1) (p # ps)"
      using sub1 subseq_rev_drop_many [of "rendered_frames evs1" "[p]" ps] by simp
    ultimately show ?thesis using e1 by auto
  next
    case (Inr b)
    then have "process_frames cfg ps (ra \<or> b) st1 = (r, st')"
      using Cons.prems s1 process_frames_Cons [of cfg p ps ra st]
      by (simp del: process_frames.simps)
    from Cons.IH [OF this] obtain evs2 where
      e2: "trace st' = trace st1 @ evs2" "subseq (rendered_frames evs2) ps"
          "\<forall>e\<in>set evs2. \<exists>q\<in>set ps. concerns q e"
      by blast
    have "subseq (rendered_frames evs1 @ rendered_frames evs2) ([p] @ ps)"
      using sub1 e2(2) by (rule list_emb_append_mono)
    then have "subseq (rendered_frames (evs1 @ evs2)) (p # ps)"
      by (simp add: rendered_frames_append)
    moreover have "trace st' = trace st @ (evs1 @ evs2)" using e1(1) e2(1) by simp
    moreover have "\<forall>e\<in>set (evs1 @ evs2). \<exists>q\<in>set (p # ps). concerns q e"
      using e1(3) e2(3) by auto
    ultimately show ?thesis by blast
  qed
qed

lemma process_frames_absent:
  assumes "process_frames cfg ps ra st = (r, st')" and "p \<notin> set ps"
  shows "filter (concerns p) (trace st') = filter (concerns p) (trace st)"
proof -
  from process_frames_effect [OF assms(1)] obtain evs where
    e: "trace st' = trace st @ evs" "\<forall>e\<in>set evs. \<exists>q\<in>set ps. concerns q e"
    by blast
  have "\<not> concerns p x" if "x \<in> set evs" for x
  proof
    assume c: "concerns p x"
    from e(2) that obtain q where q: "q \<in> set ps" "concerns q x" by blast
    from concerns_unique [OF c q(2)] q(1) assms(2) show False by simp
  qed
  then have "filter (concerns p) evs = []" by (simp add: filter_empty_conv)
  then show ?thesis using e(1) by simp
qed

lemma process_frames_done:
  assumes "process_frames cfg ps ra st = (r, st')"
    and "path_exists st (left_path cfg p)" and "path_exists st (right_path cfg p)"
    and "\<forall>q\<in>set ps. q \<noteq> left_path cfg p \<and> q \<noteq> right_path cfg p"
  shows "filter (concerns p) (trace st') = filter (concerns p) (trace st)"
  using assms
proof (induction ps arbitrary: ra st)
  case Nil
  then show ?case by simp
next
  case (Cons q ps)
  obtain r1 st1 where s1: "process_frames cfg [q] False st = (r1, st1)"
    by (cases "process_frames cfg [q] False st") auto
  have step: "filter (concerns p) (trace st1) = filter (concerns p) (trace st)
              \<and> path_exists st1 (left_path cfg p) \<and> path_exists st1 (right_path cfg p)"
  proof (cases "q = p")
    case True
    then have "\<not> should_process cfg q st"
      using Cons.prems(2,3) by (simp add: should_process_def)
    from process_frames_skip [OF this] s1 have "st1 = st" by simp
    then show ?thesis using Cons.prems by simp
  next
    case False
    from frame_step_effect [OF s1] obtain evs where
      e: "trace st1 = trace st @ evs" "\<forall>e\<in>set evs. concerns q e"
         "\<forall>x. x \<noteq> q \<longrightarrow> path_exists st x \<longrightarrow> path_exists st1 x"
      by blast
    have "\<not> concerns p x" if "x \<in> set evs" for x
      using e(2) that False concerns_unique [of p x q] by blast
    then have "filter (concerns p) evs = []" by (simp add: filter_empty_conv)
    moreover have "left_path cfg p \<noteq> q" "right_path cfg p \<noteq> q"
      using Cons.prems(4) by auto
    ultimately show ?thesis using e(1,3) Cons.prems(2,3) by simp
  qed
  show ?case
  proof (cases r1)
    case (Inl e)
    then have "st' = st1" using Cons.prems(1) s1 process_frames_Cons [of cfg q ps ra st]
      by (simp del: process_frames.simps)
    then show ?thesis using step by simp
  next
    case (Inr b)
    then have "process_frames cfg ps (ra \<or> b) st1 = (r, st')"
      using Cons.prems(1) s1 process_frames_Cons [of cfg q ps ra st]
      by (simp del: process_frames.simps)
    from Cons.IH [OF this] step Cons.prems(4) show ?thesis by simp
  qed
qed


lemma glob_match_literal:
  "CHR ''*'' \<notin> set pat \<Longrightarrow> glob_match pat s = (s = pat)"
proof (induction pat arbitrary: s)
  case Nil
  then show ?case by auto
next
  case (Cons c pat)
  then show ?case by (cases s) auto
qed

lemma glob_match_star_suffix:
  "CHR ''*'' \<notin> set pat \<Longrightarrow> glob_match (CHR ''*'' # pat) s = suffix pat s"
proof (induction s)
  case Nil
  then show ?case by (auto simp: glob_match_literal)
next
  case (Cons x s)
  then show ?case by (auto simp: glob_match_literal suffix_Cons)
qed

lemma glob_ply_suffix: "q \<in> set (glob st dir ''*.ply'') \<Longrightarrow> suffix ''.ply'' (name q)"
  using glob_match_star_suffix [of "''.ply''" "name q"] by (simp add: glob_def)

lemma not_ply_png: "\<not> suffix ''.ply'' (x @ ''_left.png'')" "\<not> suffix ''.ply'' (x @ ''_right.png'')"
  by (auto simp: suffix_def dest: arg_cong [where f = last])

lemma listed_not_output:
  assumes "q \<in> set (glob st dir ''*.ply'')"
  shows "q \<noteq> left_path cfg p \<and> q \<noteq> right_path cfg p"
  using glob_ply_suffix [OF assms] not_ply_png [of "stem p"]
  by (auto simp: left_path_def right_path_def child_def)

lemma process_once_done:
  assumes "path_exists st (left_path cfg p)" and "path_exists st (right_path cfg p)"
  shows "filter (concerns p) (trace (snd (process_once cfg st))) = filter (concerns p) (trace st)"
proof (cases "list_ply_files cfg st = []")
  case True
  then show ?thesis by (simp add: process_once_def)
next
  case False
  obtain r st' where run: "process_frames cfg (list_ply_files cfg st) False st = (r, st')"
    by (cases "process_frames cfg (list_ply_files cfg st) False st") auto
  have eq: "process_once cfg st = (r, st')" using False run by (simp add: process_once_def)
  have "filter (concerns p) (trace st') = filter (concerns p) (trace st)"
  proof (cases "input_is_file cfg")
    case isfile: True
    then have l: "list_ply_files cfg st = [input_path cfg]" by (simp add: list_ply_files_def)
    show ?thesis
    proof (cases "input_path cfg = p")
      case True
      then have "\<not> should_process cfg (input_path cfg) st"
        using assms by (simp add: should_process_def)
      from process_frames_skip [OF this] run l show ?thesis by simp
    next
      case False
      then have "p \<notin> set (list_ply_files cfg st)" using l by simp
      from process_frames_absent [OF run this] show ?thesis .
    qed
  next
    case isdir: False
    then have "\<forall>q\<in>set (list_ply_files cfg st). q \<noteq> left_path cfg p \<and> q \<noteq> right_path cfg p"
      using listed_not_output by (simp add: list_ply_files_def)
    from process_frames_done [OF run assms this] show ?thesis .
  qed
  then show ?thesis using eq by simp
qed

lemma sequential_iteration_done:
  assumes "sequential cfg"
    and "path_exists st (left_path cfg p)" and "path_exists st (right_path cfg p)"
  shows "filter (concerns p) (trace (snd (watch_iteration cfg k st))) = filter (concerns p) (trace st)"
proof (cases "expected_path cfg k = p")
  case True
  then have "\<not> should_process cfg (expected_path cfg k) st"
    using assms(2,3) by (simp add: should_process_def)
  then show ?thesis using assms(1) by (simp add: watch_iteration_def sleep_def)
next
  case False
  let ?e = "expected_path cfg k"
  have stab: "trace (snd (is_stable ?e st)) = trace st" by (simp add: is_stable_effect)
  obtain r1 st1 where s1: "is_stable ?e st = (r1, st1)" by (cases "is_stable ?e st") auto
  obtain r2 st2 where s2: "render_stereo_from_ply cfg ?e st1 = (r2, st2)"
    by (cases "render_stereo_from_ply cfg ?e st1") auto
  from render_stereo_effect [of cfg ?e st1] s2 obtain evs where
    evs: "trace st2 = trace st1 @ Resolve ?e # evs" "\<forall>x\<in>set evs. concerns ?e x"
    by auto
  have none: "filter (concerns p) evs = []"
    using evs(2) False concerns_unique [of p _ ?e] by (auto simp: filter_empty_conv)
  have t1: "trace st1 = trace st" using stab s1 by simp
  have t2: "filter (concerns p) (trace st2) = filter (concerns p) (trace st)"
    using evs(1) none t1 False by simp
  show ?thesis
    using assms(1) s1 s2 t1 t2 False
    by (auto simp: watch_iteration_def sleep_def unlink_def split: sum.splits)
qed

lemma watch_iteration_done:
  assumes "path_exists st (left_path cfg p)" and "path_exists st (right_path cfg p)"
  shows "filter (concerns p) (trace (snd (watch_iteration cfg k st))) = filter (concerns p) (trace st)"
proof (cases "sequential cfg")
  case True
  from sequential_iteration_done [OF this assms] show ?thesis .
next
  case False
  obtain r st' where po: "process_once cfg st = (r, st')" by (cases "process_once cfg st") auto
  have "filter (concerns p) (trace st') = filter (concerns p) (trace st)"
    using process_once_done [OF assms] po by simp
  then show ?thesis using False po
    by (auto simp: watch_iteration_def sleep_def split: sum.splits)
qed

text \<open>
  Claim C3. A frame whose left and right output images both exist is skipped entirely:
  one pass of \<^verbatim>\<open>process_once\<close>, and one turn of the watch loop in either mode, add to the
  trace no event about that frame: no call of the parameter resolver, no execution of
  the renderer for either eye, no deletion of its source.
\<close>

theorem done_frame_is_skipped:
  assumes "path_exists st (left_path cfg p)" and "path_exists st (right_path cfg p)"
  shows "filter (concerns p) (trace (snd (process_once cfg st))) = filter (concerns p) (trace st)
       \<and> filter (concerns p) (trace (snd (watch_iteration cfg k st))) = filter (concerns p) (trace st)"
  using process_once_done [OF assms] watch_iteration_done [OF assms] by simp

subsection \<open>Order of a pass\<close>










subsection \<open>Integer text: reading back what was written\<close>

lemma below_ten: "(m::nat) < 10 \<Longrightarrow> m \<in> {0, 1, 2, 3, 4, 5, 6, 7, 8, 9}"
  by (simp add: insert_iff) arith

lemma is_digit_digit_char: "is_digit (digit_char d)"
  using below_ten [of "d mod 10"]
  unfolding digit_char_def is_digit_def by (auto simp: nth_Cons')

lemma digit_val_digit_char: "digit_val (digit_char d) = d mod 10"
  using below_ten [of "d mod 10"]
  unfolding digit_char_def digit_val_def by (auto simp: nth_Cons')

lemma is_digit_plain:
  "is_digit c \<Longrightarrow> \<not> is_space c \<and> c \<noteq> CHR ''_'' \<and> c \<noteq> CHR ''-'' \<and> c \<noteq> CHR ''+''
     \<and> c \<noteq> CHR ''.'' \<and> c \<noteq> CHR ''l'' \<and> c \<noteq> CHR ''r''"
  by (auto simp: is_digit_def is_space_def)

lemma digits_str_nat: "list_all is_digit (str_nat n)"
  by (induction n rule: str_nat.induct) (subst str_nat.simps, simp add: is_digit_digit_char)

lemma str_nat_nonempty: "str_nat n \<noteq> []"
  by (subst str_nat.simps) simp

lemma parse_digits_append:
  "list_all is_digit ds \<Longrightarrow>
   parse_digits (ds @ rest) acc = parse_digits rest (foldl (\<lambda>a c. 10 * a + digit_val c) acc ds)"
  by (induction ds arbitrary: acc) simp_all

lemma foldl_str_nat:
  "foldl (\<lambda>a c. 10 * a + digit_val c) acc (str_nat n) = acc * 10 ^ length (str_nat n) + n"
proof (induction n arbitrary: acc rule: str_nat.induct)
  case (1 n)
  show ?case
  proof (cases "n < 10")
    case True
    then show ?thesis by (subst (1 2) str_nat.simps) (simp add: digit_val_digit_char)
  next
    case False
    have "foldl (\<lambda>a c. 10 * a + digit_val c) acc (str_nat n) =
          10 * (acc * 10 ^ length (str_nat (n div 10)) + n div 10) + n mod 10"
      using False 1 [OF False, of acc]
      by (subst str_nat.simps) (simp add: digit_val_digit_char)
    moreover have "length (str_nat n) = Suc (length (str_nat (n div 10)))"
      using False by (subst str_nat.simps) simp
    ultimately show ?thesis by (simp add: algebra_simps)
  qed
qed

lemma foldl_zeros:
  "foldl (\<lambda>a c. 10 * a + digit_val c) 0 (replicate k CHR ''0'') = 0"
  by (induction k) (simp_all add: digit_val_def)

lemma digits_zeros: "list_all is_digit (replicate k CHR ''0'')"
  by (induction k) (simp_all add: is_digit_def)

lemma digits_zero_pad: "list_all is_digit (zero_pad w (str_nat n))"
  by (simp add: zero_pad_def digits_str_nat digits_zeros)

lemma zero_pad_nonempty: "zero_pad w (str_nat n) \<noteq> []"
  by (simp add: zero_pad_def str_nat_nonempty)

lemma parse_digits_zero_pad: "parse_digits (zero_pad w (str_nat n)) 0 = Some n"
proof -
  have z: "list_all is_digit (replicate (w - length (str_nat n)) CHR ''0'')"
    by (rule digits_zeros)
  have "parse_digits (zero_pad w (str_nat n)) 0 =
        parse_digits (str_nat n @ []) 0"
    unfolding zero_pad_def using parse_digits_append [OF z, of "str_nat n" 0]
    by (simp add: foldl_zeros)
  also have "\<dots> = Some n"
    using parse_digits_append [OF digits_str_nat, of n "[]" 0] by (simp add: foldl_str_nat)
  finally show ?thesis .
qed

lemma parse_unsigned_zero_pad: "parse_unsigned (zero_pad w (str_nat n)) = Some n"
proof -
  have "is_digit (hd (zero_pad w (str_nat n)))"
    using digits_zero_pad [of w n] zero_pad_nonempty [of w n]
    by (cases "zero_pad w (str_nat n)") simp_all
  then show ?thesis by (simp add: parse_unsigned_def zero_pad_nonempty parse_digits_zero_pad)
qed

lemma strip_id:
  assumes "s \<noteq> []" and "\<not> is_space (hd s)" and "\<not> is_space (last s)"
  shows "strip s = s"
proof -
  have a: "dropWhile is_space s = s" using assms(1,2) by (cases s) simp_all
  have "rev s \<noteq> []" "\<not> is_space (hd (rev s))" using assms(1,3) by (simp_all add: hd_rev)
  then have "dropWhile is_space (rev s) = rev s" by (cases "rev s") simp_all
  then show ?thesis by (simp add: strip_def a)
qed

lemma digits_ends:
  assumes "list_all is_digit s" and "s \<noteq> []"
  shows "is_digit (hd s)" and "is_digit (last s)"
  using assms by (simp_all add: list_all_iff)

lemma py_int_digits:
  assumes "list_all is_digit s" and "s \<noteq> []"
  shows "py_int s = map_option int (parse_unsigned s)"
proof -
  have "\<not> is_space (hd s)" "\<not> is_space (last s)"
    using digits_ends [OF assms] is_digit_plain [of "hd s"] is_digit_plain [of "last s"]
    by simp_all
  then have "strip s = s" by (rule strip_id [OF assms(2)])
  moreover obtain c cs where s: "s = c # cs" using assms(2) by (cases s) auto
  moreover have "c \<noteq> CHR ''-''" "c \<noteq> CHR ''+''"
    using digits_ends(1) [OF assms] s is_digit_plain [of c] by simp_all
  ultimately show ?thesis by (simp add: py_int_def)
qed

lemma py_int_format_06d: "py_int (format_06d i) = Some i"
proof (cases "i < 0")
  case False
  then show ?thesis
    using py_int_digits [OF digits_zero_pad zero_pad_nonempty, of 6 "nat i"]
    by (simp add: format_06d_def parse_unsigned_zero_pad)
next
  case True
  let ?z = "zero_pad 5 (str_nat (nat (- i)))"
  have "is_digit (last ?z)" using digits_ends(2) [OF digits_zero_pad zero_pad_nonempty] .
  then have "\<not> is_space (last (CHR ''-'' # ?z))"
    using is_digit_plain zero_pad_nonempty by simp
  moreover have "\<not> is_space CHR ''-''" by (simp add: is_space_def)
  ultimately have "strip (CHR ''-'' # ?z) = CHR ''-'' # ?z"
    using strip_id [of "CHR ''-'' # ?z"] by simp
  then show ?thesis using True
    by (simp add: format_06d_def py_int_def parse_unsigned_zero_pad)
qed

lemma format_06d_inj: "format_06d i = format_06d j \<Longrightarrow> i = j"
  by (metis py_int_format_06d option.inject)

lemma expected_path_inj: "expected_path cfg i = expected_path cfg j \<Longrightarrow> i = j"
  using format_06d_inj [of i j] by (simp add: expected_path_def child_def)


subsection \<open>Sequential watch loop\<close>

lemma sequential_iteration_unseen:
  assumes "sequential cfg" and "seen_sizes st (expected_path cfg k) = None"
  shows "\<exists>k' st'. watch_iteration cfg k st = (Inr k', st')
           \<and> (k' = k \<and> seen_sizes st' = seen_sizes st
               \<or> k' = k + 1 \<and> (\<forall>q. q \<noteq> expected_path cfg k \<longrightarrow> seen_sizes st' q = seen_sizes st q))
           \<and> (trace st' = trace st \<or> trace st' = trace st @ [Sleep])"
proof (cases "path_exists st (expected_path cfg k)")
  case False
  then show ?thesis using assms(1) by (simp add: watch_iteration_def sleep_def)
next
  case True
  show ?thesis
  proof (cases "should_process cfg (expected_path cfg k) st")
    case False
    then show ?thesis using assms(1) True by (simp add: watch_iteration_def)
  next
    case sp: True
    have "is_stable (expected_path cfg k) st =
            (Inr False, st\<lparr>seen_sizes := (seen_sizes st)(expected_path cfg k \<mapsto>
                             st_size (fs st) (expected_path cfg k))\<rparr>)"
      using is_stable_present [OF True] assms(2) by simp
    then show ?thesis using assms(1) True sp by (simp add: watch_iteration_def)
  qed
qed

lemma sequential_loop_unseen:
  assumes "sequential cfg"
  shows "\<forall>j\<ge>k. seen_sizes st (expected_path cfg j) = None \<Longrightarrow> set (trace st) \<subseteq> {Sleep} \<Longrightarrow>
         fst (watch_loop cfg world n t k st) = None
         \<and> set (trace (snd (snd (watch_loop cfg world n t k st)))) \<subseteq> {Sleep}"
proof (induction n arbitrary: t k st)
  case 0
  then show ?case by simp
next
  case (Suc n)
  let ?st0 = "st\<lparr>fs := world t (fs st)\<rparr>"
  have "seen_sizes ?st0 (expected_path cfg k) = None" using Suc.prems(1) by simp
  from sequential_iteration_unseen [OF assms this] obtain k' st' where
    it: "watch_iteration cfg k ?st0 = (Inr k', st')"
        "k' = k \<and> seen_sizes st' = seen_sizes ?st0
         \<or> k' = k + 1 \<and> (\<forall>q. q \<noteq> expected_path cfg k \<longrightarrow> seen_sizes st' q = seen_sizes ?st0 q)"
        "trace st' = trace ?st0 \<or> trace st' = trace ?st0 @ [Sleep]"
    by blast
  have inv1: "\<forall>j\<ge>k'. seen_sizes st' (expected_path cfg j) = None"
  proof (intro allI impI)
    fix j assume j: "k' \<le> j"
    from it(2) show "seen_sizes st' (expected_path cfg j) = None"
    proof
      assume "k' = k \<and> seen_sizes st' = seen_sizes ?st0"
      then show ?thesis using Suc.prems(1) j by simp
    next
      assume h: "k' = k + 1 \<and> (\<forall>q. q \<noteq> expected_path cfg k \<longrightarrow> seen_sizes st' q = seen_sizes ?st0 q)"
      then have "j \<noteq> k" using j by simp
      then have "expected_path cfg j \<noteq> expected_path cfg k" using expected_path_inj by blast
      then show ?thesis using h Suc.prems(1) j by simp
    qed
  qed
  have inv2: "set (trace st') \<subseteq> {Sleep}" using it(3) Suc.prems(2) by auto
  have "watch_loop cfg world (Suc n) t k st = watch_loop cfg world n (Suc t) k' st'"
    using it(1) by simp
  then show ?case using Suc.IH [OF inv1 inv2] by simp
qed

text \<open>
  Claim C1 asks that the sequential watcher render the next expected frame once it is
  present and stable, and only then advance its counter, so that no lower-indexed frame
  is skipped. The loop does not do that. \<^verbatim>\<open>expected_index += 1\<close> runs whenever the expected
  file exists, also when \<^verbatim>\<open>is_stable\<close> has just answered no; and the first poll of a file
  always answers no, since no size is recorded yet. Each expected file is therefore
  polled once and passed over: started in sequential mode, whatever files exist and
  whatever arrives later, the loop raises no exception and its trace holds nothing but
  sleeps: no resolver call and no renderer execution, for any number of turns.
\<close>

theorem sequential_watch_never_renders:
  assumes "sequential cfg"
  shows "fst (main_watch cfg world n f) = None
       \<and> set (trace (snd (snd (main_watch cfg world n f)))) \<subseteq> {Sleep}"
  unfolding main_watch_def Let_def
  by (rule sequential_loop_unseen [OF assms]) (simp_all add: initial_state_def)


subsection \<open>The sequential loop on one waiting frame\<close>

lemma str_nat_small: "n < 10 \<Longrightarrow> str_nat n = [digit_char n]"
  by (subst str_nat.simps) simp

lemma replicate_5: "replicate 5 x = [x, x, x, x, x]"
  by (simp add: numeral_eq_Suc)

lemma format_06d_small:
  "format_06d 0 = ''000000''" "format_06d 1 = ''000001''" "format_06d 2 = ''000002''"
  "format_06d 3 = ''000003''" "format_06d 4 = ''000004''"
  by (simp_all add: format_06d_def zero_pad_def str_nat_small digit_char_def replicate_5)

lemma expected_path_small:
  "expected_path (example_config run w s) 0 = frame0"
  "expected_path (example_config run w s) 1 = Path ''/data/in'' ''frame_000001.ply''"
  by (simp_all add: expected_path_def example_config_def child_def str_path_def
        format_06d_small frame0_def)

lemma next_expected_frame0_only:
  "next_expected_index (example_config run w s) (initial_state frame0_only) = 0"
  by (simp add: next_expected_index_def glob_def initial_state_def frame0_only_def frame0_def
        example_config_def str_path_def collect_indices_def)

lemma frame0_exists: "fs st = frame0_only \<Longrightarrow> path_exists st frame0"
  by (simp add: path_exists_def frame0_only_def)

lemma frame1_missing:
  "fs st = frame0_only \<Longrightarrow> \<not> path_exists st (Path ''/data/in'' ''frame_000001.ply'')"
  by (simp add: path_exists_def frame0_only_def frame0_def)

lemma frame0_not_done:
  "fs st = frame0_only \<Longrightarrow> should_process (example_config run w s) frame0 st"
  by (simp add: should_process_def path_exists_def frame0_only_def left_path_def child_def
        frame0_def)

lemma sequential_turn0:
  assumes "fs st = frame0_only" and "seen_sizes st frame0 = None"
  shows "watch_iteration (example_config run w True) 0 (st\<lparr>fs := quiet_world t (fs st)\<rparr>) =
           (Inr 1, st\<lparr>seen_sizes := (seen_sizes st)(frame0 \<mapsto> 100)\<rparr>)"
proof -
  have q: "st\<lparr>fs := quiet_world t (fs st)\<rparr> = st" by (simp add: quiet_world_def)
  have seq: "sequential (example_config run w True)" by (simp add: example_config_def)
  have sz: "st_size (fs st) frame0 = 100" using assms(1) by (simp add: frame0_only_def size_100_def)
  have "is_stable frame0 st = (Inr False, st\<lparr>seen_sizes := (seen_sizes st)(frame0 \<mapsto> 100)\<rparr>)"
    using is_stable_present [OF frame0_exists [OF assms(1)]] assms(2) sz by simp
  then show ?thesis
    unfolding q watch_iteration_def expected_path_small
    using seq frame0_exists [OF assms(1)] frame0_not_done [OF assms(1)] by simp
qed

lemma sequential_turn1:
  assumes "fs st = frame0_only"
  shows "watch_iteration (example_config run w True) 1 (st\<lparr>fs := quiet_world t (fs st)\<rparr>) =
           (Inr 1, st\<lparr>trace := trace st @ [Sleep]\<rparr>)"
proof -
  have q: "st\<lparr>fs := quiet_world t (fs st)\<rparr> = st" by (simp add: quiet_world_def)
  have seq: "sequential (example_config run w True)" by (simp add: example_config_def)
  show ?thesis
    unfolding q watch_iteration_def expected_path_small
    using seq frame1_missing [OF assms] by (simp add: sleep_def)
qed

text \<open>
  The input directory holds \<^verbatim>\<open>frame_000000.ply\<close>, 100 bytes, unchanged for ever; the
  output directory is empty. After three turns the counter is 1, frame 0 has been polled
  once and was not rendered, and the loop sleeps waiting for frame 1.
\<close>

theorem sequential_skips_frame0:
  "sequential (example_config always_ok True True)
   \<and> path_exists (initial_state frame0_only) (expected_path (example_config always_ok True True) 0)
   \<and> main_watch (example_config always_ok True True) quiet_world 3 frame0_only =
       (None, 1, (initial_state frame0_only)\<lparr>seen_sizes := [frame0 \<mapsto> 100], trace := [Sleep, Sleep]\<rparr>)"
proof -
  let ?cfg = "example_config always_ok True True"
  let ?s0 = "initial_state frame0_only"
  let ?s1 = "?s0\<lparr>seen_sizes := [frame0 \<mapsto> 100]\<rparr>"
  let ?s2 = "?s1\<lparr>trace := [Sleep]\<rparr>"
  let ?s3 = "?s1\<lparr>trace := [Sleep, Sleep]\<rparr>"
  have seq: "sequential ?cfg" by (simp add: example_config_def)
  have ex: "path_exists ?s0 (expected_path ?cfg 0)"
    by (simp add: expected_path_small path_exists_def initial_state_def frame0_only_def)
  have t0: "watch_iteration ?cfg 0 (?s0\<lparr>fs := quiet_world t (fs ?s0)\<rparr>) = (Inr 1, ?s1)" for t
    using sequential_turn0 [of ?s0 always_ok True t] by (simp add: initial_state_def)
  have t1: "watch_iteration ?cfg 1 (?s1\<lparr>fs := quiet_world t (fs ?s1)\<rparr>) = (Inr 1, ?s2)" for t
    using sequential_turn1 [of ?s1 always_ok True t] by (simp add: initial_state_def)
  have t2: "watch_iteration ?cfg 1 (?s2\<lparr>fs := quiet_world t (fs ?s2)\<rparr>) = (Inr 1, ?s3)" for t
    using sequential_turn1 [of ?s2 always_ok True t] by (simp add: initial_state_def)
  have l1: "watch_loop ?cfg quiet_world (Suc 0) t 1 ?s2 = (None, 1, ?s3)" for t
    unfolding watch_loop.simps t2 by simp
  have l2: "watch_loop ?cfg quiet_world (Suc (Suc 0)) t 1 ?s1 = (None, 1, ?s3)" for t
    unfolding watch_loop.simps(2) [of _ _ "Suc 0"] t1 using l1 by simp
  have l3: "watch_loop ?cfg quiet_world (Suc (Suc (Suc 0))) t 0 ?s0 = (None, 1, ?s3)" for t
    unfolding watch_loop.simps(2) [of _ _ "Suc (Suc 0)"] t0 using l2 by simp
  have "main_watch ?cfg quiet_world 3 frame0_only = (None, 1, ?s3)"
    unfolding main_watch_def Let_def numeral_3_eq_3 using seq l3 [of 0]
    by (simp add: next_expected_frame0_only del: watch_loop.simps)
  then show ?thesis
    using seq ex sequential_watch_never_renders [OF seq, of quiet_world 3 frame0_only]
    by simp
qed

subsection \<open>Concrete passes\<close>


lemma stem_frames: "stem frame9 = ''frame_9''" "stem frame10 = ''frame_10''" "stem frame0 = ''frame_000000''"
  by (simp_all add: stem_def stem_of_def rfind_def frame9_def frame10_def frame0_def)




text \<open>
  \<^verbatim>\<open>frame_000000.ply\<close> with both of its output images in place: neither a pass nor a turn of
  the watch loop touches it.
\<close>

theorem done_frame_witness:
  "path_exists (initial_state frame0_done) (left_path (example_config always_ok False False) frame0)
   \<and> path_exists (initial_state frame0_done) (right_path (example_config always_ok False False) frame0)
   \<and> filter (concerns frame0)
        (trace (snd (process_once (example_config always_ok False False) (initial_state frame0_done)))) = []
   \<and> filter (concerns frame0)
        (trace (snd (watch_iteration (example_config always_ok False False) 0 (initial_state frame0_done)))) = []"
proof -
  let ?cfg = "example_config always_ok False False"
  have l: "path_exists (initial_state frame0_done) (left_path ?cfg frame0)"
    by (simp add: path_exists_def initial_state_def frame0_done_def left_path_def stem_frames
          child_def str_path_def example_config_def)
  have r: "path_exists (initial_state frame0_done) (right_path ?cfg frame0)"
    by (simp add: path_exists_def initial_state_def frame0_done_def right_path_def stem_frames
          child_def str_path_def example_config_def)
  show ?thesis using l r done_frame_is_skipped [OF l r, of 0] by (simp add: initial_state_def)
qed





subsection \<open>Start of the sequential counter\<close>

lemma rfind_ext:
  "CHR ''.'' \<notin> set ext \<Longrightarrow> rfind CHR ''.'' (x @ CHR ''.'' # ext) = Some (length x)"
proof -
  have "takeWhile (\<lambda>c. c \<noteq> CHR ''.'') (rev ext @ CHR ''.'' # rev x) = rev ext"
    if "CHR ''.'' \<notin> set ext"
    using that by (subst takeWhile_append2) auto
  then show "CHR ''.'' \<notin> set ext \<Longrightarrow> ?thesis" by (simp add: rfind_def)
qed

lemma stem_of_ext:
  "x \<noteq> [] \<Longrightarrow> ext \<noteq> [] \<Longrightarrow> CHR ''.'' \<notin> set ext \<Longrightarrow> stem_of (x @ CHR ''.'' # ext) = x"
  by (simp add: stem_of_def rfind_ext)

lemma stem_expected: "stem (expected_path cfg k) = ''frame_'' @ format_06d k"
  using stem_of_ext [of "''frame_'' @ format_06d k" "''ply''"]
  by (simp add: stem_def expected_path_def child_def)

lemma name_frame_output:
  "name (frame_output cfg i e) = ''frame_'' @ format_06d (int i) @ eye_suffix e @ ''.png''"
  "parent (frame_output cfg i e) = str_path (output_dir cfg)"
  by (simp_all add: frame_output_def eye_output_def left_path_def right_path_def child_def
        stem_expected eye_suffix_def)

lemma stem_frame_output:
  "stem (frame_output cfg i e) = ''frame_'' @ format_06d (int i) @ eye_suffix e"
  using stem_of_ext [of "''frame_'' @ format_06d (int i) @ eye_suffix e" "''png''"]
  by (simp add: stem_def name_frame_output)

lemma str_remove_digits:
  "list_all is_digit ds \<Longrightarrow> old \<noteq> [] \<Longrightarrow> \<not> is_digit (hd old) \<Longrightarrow>
   str_remove old (ds @ old) = ds"
proof (induction ds)
  case Nil
  then show ?case by (subst str_remove.simps, subst str_remove.simps) simp
next
  case (Cons d ds)
  then have "\<not> prefix old (d # ds @ old)" by (cases old) auto
  then show ?case using Cons by (subst str_remove.simps) simp
qed

lemma str_remove_frame:
  assumes "list_all is_digit ds" and "ds \<noteq> []"
  shows "str_remove (eye_suffix e) (''frame_'' @ ds @ eye_suffix e) = ''frame_'' @ ds"
proof -
  obtain d ds' where ds: "ds = d # ds'" using assms(2) by (cases ds) auto
  have d: "d \<noteq> CHR ''l''" "d \<noteq> CHR ''r''" "d \<noteq> CHR ''_''"
    using assms(1) ds is_digit_plain [of d] by simp_all
  have nd: "\<not> is_digit (hd (eye_suffix e))" "eye_suffix e \<noteq> []"
    by (simp_all add: eye_suffix_def is_digit_def)
  have rest: "str_remove (eye_suffix e) (ds @ eye_suffix e) = ds"
    using str_remove_digits [OF assms(1) nd(2) nd(1)] .
  have step: "c \<noteq> CHR ''_'' \<Longrightarrow> str_remove (eye_suffix e) (c # t) = c # str_remove (eye_suffix e) t" for c t
    by (subst str_remove.simps) (simp add: eye_suffix_def)
  have us: "str_remove (eye_suffix e) (CHR ''_'' # ds @ eye_suffix e)
            = CHR ''_'' # str_remove (eye_suffix e) (ds @ eye_suffix e)"
    using d by (subst str_remove.simps) (simp add: eye_suffix_def ds)
  show ?thesis by (simp add: step us rest)
qed

lemma frame_index_frame: "frame_index_from_stem (''frame_'' @ ds) = py_int ds"
  by (simp add: frame_index_from_stem_def startswith_def after_first_def)

lemma format_06d_nat: "format_06d (int i) = zero_pad 6 (str_nat i)"
  by (simp add: format_06d_def)

lemma index_frame_output:
  "frame_index_from_stem (str_remove (eye_suffix e) (stem (frame_output cfg i e))) = Some (int i)"
proof -
  have dg: "list_all is_digit (format_06d (int i))" "format_06d (int i) \<noteq> []"
    by (simp_all add: format_06d_nat digits_zero_pad zero_pad_nonempty)
  show ?thesis
    by (simp only: stem_frame_output str_remove_frame [OF dg] frame_index_frame
          py_int_format_06d)
qed

lemma glob_match_prefix:
  "CHR ''*'' \<notin> set lit \<Longrightarrow> glob_match (lit @ rest) (lit @ s) = glob_match rest s"
  by (induction lit) auto

lemma glob_frame_output:
  "glob_match (eye_pattern e') (name (frame_output cfg i e)) = (e' = e)"
proof -
  let ?ds = "format_06d (int i)"
  have a: "glob_match (''frame_'' @ CHR ''*'' # pat) (''frame_'' @ s) = glob_match (CHR ''*'' # pat) s"
    for pat s
    by (rule glob_match_prefix) simp
  have l: "glob_match ''frame_*_left.png'' (''frame_'' @ t) = suffix ''_left.png'' t" for t
    using a [of "''_left.png''" t] glob_match_star_suffix [of "''_left.png''" t] by simp
  have r: "glob_match ''frame_*_right.png'' (''frame_'' @ t) = suffix ''_right.png'' t" for t
    using a [of "''_right.png''" t] glob_match_star_suffix [of "''_right.png''" t] by simp
  have x1: "\<not> suffix ''_right.png'' (?ds @ ''_left.png'')"
    by (auto simp: suffix_def dest: arg_cong [where f = "\<lambda>s. take 5 (rev s)"])
  have x2: "\<not> suffix ''_left.png'' (?ds @ ''_right.png'')"
    by (auto simp: suffix_def dest: arg_cong [where f = "\<lambda>s. take 5 (rev s)"])
  have y: "suffix ''_left.png'' (?ds @ ''_left.png'')" "suffix ''_right.png'' (?ds @ ''_right.png'')"
    by (simp_all add: suffix_def)
  show ?thesis
    using l [of "?ds @ eye_suffix e @ ''.png''"] r [of "?ds @ eye_suffix e @ ''.png''"] x1 x2 y
    by (cases e; cases e') (simp_all add: name_frame_output eye_pattern_def eye_suffix_def)
qed

lemma set_collect_indices:
  "set (collect_indices suf ps) =
     {x. \<exists>q\<in>set ps. frame_index_from_stem (str_remove suf (stem q)) = Some x}"
  by (auto simp: collect_indices_def split: option.splits)

lemma existing_indices_set:
  "set (collect_indices ''_left'' (glob st (output_dir cfg) ''frame_*_left.png'')
        @ collect_indices ''_right'' (glob st (output_dir cfg) ''frame_*_right.png'')) =
     {x. \<exists>q\<in>set (present (fs st)). parent q = str_path (output_dir cfg)
              \<and> (\<exists>e. glob_match (eye_pattern e) (name q)
                     \<and> frame_index_from_stem (str_remove (eye_suffix e) (stem q)) = Some x)}"
    (is "set (?L @ ?R) = ?I")
  proof (intro set_eqI iffI)
    fix x assume "x \<in> set (?L @ ?R)"
    then consider "x \<in> set ?L" | "x \<in> set ?R" by auto
    then show "x \<in> ?I"
    proof cases
      case 1
      then obtain q where "q \<in> set (present (fs st))" "parent q = str_path (output_dir cfg)"
        "glob_match (eye_pattern Left) (name q)"
        "frame_index_from_stem (str_remove (eye_suffix Left) (stem q)) = Some x"
        by (auto simp: set_collect_indices glob_def eye_pattern_def eye_suffix_def)
      then show ?thesis by blast
    next
      case 2
      then obtain q where "q \<in> set (present (fs st))" "parent q = str_path (output_dir cfg)"
        "glob_match (eye_pattern Right) (name q)"
        "frame_index_from_stem (str_remove (eye_suffix Right) (stem q)) = Some x"
        by (auto simp: set_collect_indices glob_def eye_pattern_def eye_suffix_def)
      then show ?thesis by blast
    qed
  next
    fix x assume "x \<in> ?I"
    then obtain q e where q: "q \<in> set (present (fs st))" "parent q = str_path (output_dir cfg)"
        "glob_match (eye_pattern e) (name q)"
        "frame_index_from_stem (str_remove (eye_suffix e) (stem q)) = Some x"
      by blast
    show "x \<in> set (?L @ ?R)"
    proof (cases e)
      case Left
      then have "x \<in> set ?L" using q
        by (auto simp: set_collect_indices glob_def eye_pattern_def eye_suffix_def)
      then show ?thesis by simp
    next
      case Right
      then have "x \<in> set ?R" using q
        by (auto simp: set_collect_indices glob_def eye_pattern_def eye_suffix_def)
      then show ?thesis by simp
    qed
  qed

lemma next_expected_index_general:
  "next_expected_index cfg st =
     (if {x. \<exists>q\<in>set (present (fs st)). parent q = str_path (output_dir cfg)
              \<and> (\<exists>e. glob_match (eye_pattern e) (name q)
                     \<and> frame_index_from_stem (str_remove (eye_suffix e) (stem q)) = Some x)} = {}
      then 0
      else Max {x. \<exists>q\<in>set (present (fs st)). parent q = str_path (output_dir cfg)
              \<and> (\<exists>e. glob_match (eye_pattern e) (name q)
                     \<and> frame_index_from_stem (str_remove (eye_suffix e) (stem q)) = Some x)} + 1)"
proof -
  have "next_expected_index cfg st =
     (if set (collect_indices ''_left'' (glob st (output_dir cfg) ''frame_*_left.png'')
        @ collect_indices ''_right'' (glob st (output_dir cfg) ''frame_*_right.png'')) = {}
      then 0
      else Max (set (collect_indices ''_left'' (glob st (output_dir cfg) ''frame_*_left.png'')
        @ collect_indices ''_right'' (glob st (output_dir cfg) ''frame_*_right.png''))) + 1)"
    by (simp add: next_expected_index_def Let_def)
  then show ?thesis by (simp only: existing_indices_set)
qed

lemma canonical_indices:
  assumes "\<forall>q\<in>set (present (fs st)). parent q = str_path (output_dir cfg) \<longrightarrow>
             (\<exists>i e. q = frame_output cfg i e)
             \<or> (\<not> glob_match ''frame_*_left.png'' (name q)
                \<and> \<not> glob_match ''frame_*_right.png'' (name q))"
  shows "{x. \<exists>q\<in>set (present (fs st)). parent q = str_path (output_dir cfg)
              \<and> (\<exists>e. glob_match (eye_pattern e) (name q)
                     \<and> frame_index_from_stem (str_remove (eye_suffix e) (stem q)) = Some x)}
         = int ` {i. \<exists>e. path_exists st (frame_output cfg i e)}"
    (is "?I = int ` ?S")
proof (intro set_eqI iffI)
  fix x assume "x \<in> ?I"
  then obtain q e where q: "q \<in> set (present (fs st))" "parent q = str_path (output_dir cfg)"
      "glob_match (eye_pattern e) (name q)"
      "frame_index_from_stem (str_remove (eye_suffix e) (stem q)) = Some x"
    by blast
  have "glob_match ''frame_*_left.png'' (name q) \<or> glob_match ''frame_*_right.png'' (name q)"
    using q(3) by (cases e) (simp_all add: eye_pattern_def)
  with assms q(1,2) obtain i e' where ie: "q = frame_output cfg i e'" by blast
  then have "e' = e" using q(3) glob_frame_output [of e cfg i e'] by simp
  then have "x = int i" using q(4) ie index_frame_output [of e cfg i] by simp
  moreover have "path_exists st (frame_output cfg i e)"
    using q(1) ie \<open>e' = e\<close> by (simp add: path_exists_def)
  ultimately show "x \<in> int ` ?S" by blast
next
  fix x assume "x \<in> int ` ?S"
  then obtain i e where ie: "x = int i" "path_exists st (frame_output cfg i e)" by blast
  have "frame_output cfg i e \<in> set (present (fs st))" using ie(2) by (simp add: path_exists_def)
  moreover have "parent (frame_output cfg i e) = str_path (output_dir cfg)"
    by (simp add: name_frame_output)
  moreover have "glob_match (eye_pattern e) (name (frame_output cfg i e))"
    by (simp add: glob_frame_output)
  moreover have "frame_index_from_stem (str_remove (eye_suffix e) (stem (frame_output cfg i e)))
                 = Some x"
    using ie(1) by (simp add: index_frame_output)
  ultimately show "x \<in> ?I" by blast
qed

lemma Max_int_image:
  assumes "finite (int ` S)" and "S \<noteq> {}"
  shows "Max (int ` S) = int (Max S)"
proof -
  have "finite S" using assms(1) by (rule finite_imageD) simp
  then show ?thesis using assms(2) mono_Max_commute [of int S] by (simp add: mono_def)
qed

text \<open>
  Claim C2, as the code has it. In an output directory whose entries are output images
  of the sequential naming, or files that neither pattern of \<^verbatim>\<open>next_expected_index\<close>
  matches, the counter starts at 0 when no frame has an image of either eye, and
  otherwise at one past the highest frame index that has a left or a right image. One
  image is enough: the frame need not be fully rendered.
\<close>

theorem next_expected_index_any_eye:
  assumes "\<forall>q\<in>set (present (fs st)). parent q = str_path (output_dir cfg) \<longrightarrow>
             (\<exists>i e. q = frame_output cfg i e)
             \<or> (\<not> glob_match ''frame_*_left.png'' (name q)
                \<and> \<not> glob_match ''frame_*_right.png'' (name q))"
  shows "next_expected_index cfg st =
           (if \<forall>i e. \<not> path_exists st (frame_output cfg i e) then 0
            else int (Max {i. \<exists>e. path_exists st (frame_output cfg i e)}) + 1)"
proof -
  define S where "S = {i. \<exists>e. path_exists st (frame_output cfg i e)}"
  have eq: "next_expected_index cfg st = (if int ` S = {} then 0 else Max (int ` S) + 1)"
    unfolding S_def
    using next_expected_index_general [of cfg st] by (simp only: canonical_indices [OF assms])
  have "set (collect_indices ''_left'' (glob st (output_dir cfg) ''frame_*_left.png'')
        @ collect_indices ''_right'' (glob st (output_dir cfg) ''frame_*_right.png'')) = int ` S"
    unfolding S_def by (simp only: existing_indices_set canonical_indices [OF assms])
  then have fin: "finite (int ` S)" using finite_set by metis
  have empty: "(\<forall>i e. \<not> path_exists st (frame_output cfg i e)) = (S = {})"
    unfolding S_def by blast
  show ?thesis
  proof (cases "S = {}")
    case True
    then have "next_expected_index cfg st = 0" using eq by simp
    then show ?thesis unfolding empty S_def [symmetric] using True by simp
  next
    case False
    then have "next_expected_index cfg st = int (Max S) + 1"
      using eq Max_int_image [OF fin False] by simp
    then show ?thesis unfolding empty S_def [symmetric] using False by simp
  qed
qed

lemma frame_output_3:
  "frame_output (example_config run w s) 3 e =
     Path ''/data/out'' (if e = Left then ''frame_000003_left.png'' else ''frame_000003_right.png'')"
  by (simp add: frame_output_def eye_output_def left_path_def right_path_def child_def
        stem_expected format_06d_small example_config_def str_path_def)

lemma next_expected_left3_only:
  "next_expected_index (example_config run w s) (initial_state left3_only) = 4"
proof -
  let ?cfg = "example_config run w s"
  let ?st = "initial_state left3_only"
  have pr: "present (fs ?st) = [frame_output ?cfg 3 Left]"
    by (simp add: initial_state_def left3_only_def frame_output_3)
  have l: "glob ?st (output_dir ?cfg) ''frame_*_left.png'' = [frame_output ?cfg 3 Left]"
    unfolding glob_def pr
    using glob_frame_output [of Left ?cfg 3 Left]
    by (simp add: name_frame_output eye_pattern_def)
  have r: "glob ?st (output_dir ?cfg) ''frame_*_right.png'' = []"
    unfolding glob_def pr
    using glob_frame_output [of Right ?cfg 3 Left]
    by (simp add: eye_pattern_def)
  have c: "collect_indices ''_left'' [frame_output ?cfg 3 Left] = [3]"
    using index_frame_output [of Left ?cfg 3]
    by (simp add: collect_indices_def eye_suffix_def)
  show ?thesis
    unfolding next_expected_index_def Let_def l r c by (simp add: collect_indices_def)
qed

text \<open>
  Where the claim as worded fails. The output directory holds
  \<^verbatim>\<open>frame_000003_left.png\<close> only: the right image of frame 3 is missing, no frame is fully
  rendered, and the counter starts at 4, not at 0.
\<close>

theorem next_expected_index_half_rendered_counterexample:
  "present (fs (initial_state left3_only)) = [Path ''/data/out'' ''frame_000003_left.png'']
   \<and> \<not> path_exists (initial_state left3_only)
         (right_path (example_config always_ok True True) (Path ''/data/in'' ''frame_000003.ply''))
   \<and> next_expected_index (example_config always_ok True True) (initial_state left3_only) = 4"
proof -
  have "right_path (example_config always_ok True True) (Path ''/data/in'' ''frame_000003.ply'')
        = Path ''/data/out'' ''frame_000003_right.png''"
    by (simp add: right_path_def child_def stem_def stem_of_def rfind_def example_config_def
          str_path_def)
  then show ?thesis
    using next_expected_left3_only [of always_ok True True]
    by (simp add: initial_state_def left3_only_def path_exists_def)
qed

text \<open>The same directory: the highest index with an image of either eye is 3.\<close>

theorem next_expected_index_any_eye_witness:
  "present (fs (initial_state left3_only)) = [frame_output (example_config always_ok True True) 3 Left]
   \<and> path_exists (initial_state left3_only) (frame_output (example_config always_ok True True) 3 Left)
   \<and> next_expected_index (example_config always_ok True True) (initial_state left3_only) = 4
   \<and> Max {i. \<exists>e. path_exists (initial_state left3_only)
                   (frame_output (example_config always_ok True True) i e)} = 3"
proof -
  let ?cfg = "example_config always_ok True True"
  let ?st = "initial_state left3_only"
  have pr: "present (fs ?st) = [frame_output ?cfg 3 Left]"
    by (simp add: initial_state_def left3_only_def frame_output_3)
  have h: "\<forall>q\<in>set (present (fs ?st)). parent q = str_path (output_dir ?cfg) \<longrightarrow>
         (\<exists>i e. q = frame_output ?cfg i e)
         \<or> (\<not> glob_match ''frame_*_left.png'' (name q)
            \<and> \<not> glob_match ''frame_*_right.png'' (name q))"
    unfolding pr by auto
  have ex: "path_exists ?st (frame_output ?cfg 3 Left)" by (simp add: path_exists_def pr)
  then have ne: "\<not> (\<forall>i e. \<not> path_exists ?st (frame_output ?cfg i e))" by blast
  have "int (Max {i. \<exists>e. path_exists ?st (frame_output ?cfg i e)}) + 1 = 4"
    using next_expected_index_any_eye [OF h] ne next_expected_left3_only [of always_ok True True]
    by simp
  then have "Max {i. \<exists>e. path_exists ?st (frame_output ?cfg i e)} = 3" by simp
  then show ?thesis using pr ex next_expected_left3_only [of always_ok True True] by simp
qed

subsection \<open>Batch fan-out\<close>

lemma render_parallel_find:
  "render_parallel run exe out ply_files =
     (case find (\<lambda>p. run (ply_to_stereo_command exe p out) \<noteq> 0) ply_files of
        None \<Rightarrow> Inr ()
      | Some p \<Rightarrow> Inl (CalledProcessError (ply_to_stereo_command exe p out)))"
  unfolding render_parallel_def submit_all_def
  by (induction ply_files) (simp_all add: render_with_ply_to_stereo_def Let_def)

lemma render_parallel_success:
  "(render_parallel run exe out ply_files = Inr ()) =
     (\<forall>p\<in>set ply_files. run (ply_to_stereo_command exe p out) = 0)"
  unfolding render_parallel_def submit_all_def
  by (induction ply_files) (simp_all add: render_with_ply_to_stereo_def Let_def)

text \<open>
  Claim C4, as the code has it. Every submitted frame gets a future holding the outcome
  of its own job, whatever the other jobs did. The batch succeeds exactly when the job
  of every frame exits with status 0. Otherwise it raises one error: that of the first
  failed frame in submission order. The later failed frames are not reported.
\<close>

theorem render_parallel_first_failure:
  "map fst (submit_all run exe out ply_files) = ply_files
   \<and> (\<forall>p\<in>set ply_files.
         (p, render_with_ply_to_stereo run exe p out) \<in> set (submit_all run exe out ply_files))
   \<and> (render_parallel run exe out ply_files = Inr ()) =
       (\<forall>p\<in>set ply_files. run (ply_to_stereo_command exe p out) = 0)
   \<and> render_parallel run exe out ply_files =
       (case find (\<lambda>p. run (ply_to_stereo_command exe p out) \<noteq> 0) ply_files of
          None \<Rightarrow> Inr ()
        | Some p \<Rightarrow> Inl (CalledProcessError (ply_to_stereo_command exe p out)))"
proof -
  have a: "map fst (submit_all run exe out ply_files) = ply_files"
    by (simp add: submit_all_def comp_def)
  have b: "\<forall>p\<in>set ply_files.
         (p, render_with_ply_to_stereo run exe p out) \<in> set (submit_all run exe out ply_files)"
    by (simp add: submit_all_def)
  show ?thesis
    using a b render_parallel_success [of run exe out ply_files]
      render_parallel_find [of run exe out ply_files]
    by blast
qed

lemma str_frame_ply:
  "str_path (frame_ply 0) = ''/data/ply/frame_000000.ply''"
  "str_path (frame_ply 1) = ''/data/ply/frame_000001.ply''"
  "str_path (frame_ply 2) = ''/data/ply/frame_000002.ply''"
  "str_path (frame_ply 3) = ''/data/ply/frame_000003.ply''"
  "str_path (frame_ply 4) = ''/data/ply/frame_000004.ply''"
  by (simp_all add: frame_ply_def str_path_def format_06d_small del: One_nat_def)

lemma fail_frame2_codes:
  "fail_frame2 (ply_to_stereo_command ''python3'' (frame_ply 0) stereo_dir0) = 0"
  "fail_frame2 (ply_to_stereo_command ''python3'' (frame_ply 1) stereo_dir0) = 0"
  "fail_frame2 (ply_to_stereo_command ''python3'' (frame_ply 2) stereo_dir0) = 1"
  "fail_frame2 (ply_to_stereo_command ''python3'' (frame_ply 3) stereo_dir0) = 0"
  "fail_frame2 (ply_to_stereo_command ''python3'' (frame_ply 4) stereo_dir0) = 0"
  by (simp_all add: fail_frame2_def ply_to_stereo_command_def str_frame_ply del: One_nat_def)
     (simp_all add: str_path_def child_def ROOT_DIR_def stereo_dir0_def)

text \<open>
  Five frames, the job of frame 2 fails: the batch raises the error of frame 2, frame 2
  is the only failed frame, and the futures of frames 0, 1, 3 and 4 hold success.
\<close>

theorem render_parallel_five_frames_witness:
  "render_parallel fail_frame2 ''python3'' stereo_dir0
       [frame_ply 0, frame_ply 1, frame_ply 2, frame_ply 3, frame_ply 4] =
     Inl (CalledProcessError (ply_to_stereo_command ''python3'' (frame_ply 2) stereo_dir0))
   \<and> failed_frames fail_frame2 ''python3'' stereo_dir0
       [frame_ply 0, frame_ply 1, frame_ply 2, frame_ply 3, frame_ply 4] = [frame_ply 2]
   \<and> map snd (submit_all fail_frame2 ''python3'' stereo_dir0
       [frame_ply 0, frame_ply 1, frame_ply 2, frame_ply 3, frame_ply 4]) =
     [Inr (), Inr (),
      Inl (CalledProcessError (ply_to_stereo_command ''python3'' (frame_ply 2) stereo_dir0)),
      Inr (), Inr ()]"
  using render_parallel_first_failure [of fail_frame2 "''python3''" stereo_dir0
          "[frame_ply 0, frame_ply 1, frame_ply 2, frame_ply 3, frame_ply 4]"]
  by (simp add: fail_frame2_codes failed_frames_def submit_all_def
        render_with_ply_to_stereo_def del: One_nat_def)

text \<open>
  Where the claim as worded fails. Two frames, both jobs fail: the batch raises the error
  of frame 0, whose command line does not name frame 1. The failure of frame 1 is not
  reported.
\<close>

theorem render_parallel_two_failures_counterexample:
  "failed_frames always_fail ''python3'' stereo_dir0 [frame_ply 0, frame_ply 1]
     = [frame_ply 0, frame_ply 1]
   \<and> render_parallel always_fail ''python3'' stereo_dir0 [frame_ply 0, frame_ply 1] =
       Inl (CalledProcessError (ply_to_stereo_command ''python3'' (frame_ply 0) stereo_dir0))
   \<and> str_path (frame_ply 1) \<notin> set (ply_to_stereo_command ''python3'' (frame_ply 0) stereo_dir0)"
proof -
  have "str_path (frame_ply 1) \<notin> set (ply_to_stereo_command ''python3'' (frame_ply 0) stereo_dir0)"
    unfolding ply_to_stereo_command_def str_frame_ply
    by (simp add: str_path_def child_def ROOT_DIR_def stereo_dir0_def)
  then show ?thesis
    by (simp add: failed_frames_def always_fail_def render_parallel_def submit_all_def
          render_with_ply_to_stereo_def del: One_nat_def)
qed

end
